theory Spec2Isabelle
  imports Complex_Main
begin

section \<open>Common ground: exceptions, Python values, numbers, strings\<close>

text \<open>
  The exceptions of \<^verbatim>\<open>src/core/exceptions.py\<close> and the built-in ones the modelled code
  can raise. A function that may raise returns \<open>error + 'a\<close>, \<open>Inl\<close> being the raise.
\<close>

datatype error =
    ValueError | TypeError | AttributeError
  | ValidationError | AnalysisError | LyricsNotFoundError
  | GroqAPIError | GeniusAPIError | NetworkError | RateLimitError | AuthenticationError
  | RequestException | OtherException

text \<open>
  A Python float is a binary double. A finite one is modelled by its exact value, which
  is a rational number; the two infinities and \<open>nan\<close> are values of their own. A number
  written in decimal in a response reaches the program as the double nearest to it, and
  it is the value of that double a payload carries: the text \<^verbatim>\<open>2.665\<close> is the double
  \<open>3000523251735593 / 2^50\<close>, a little above \<open>2665 / 1000\<close>, while \<^verbatim>\<open>2.625\<close> is
  \<open>21 / 8\<close> exactly. The constants \<^verbatim>\<open>0.6\<close> and \<^verbatim>\<open>0.7\<close> of the code are written as
  the decimals they name: \<^verbatim>\<open>round(0.6, 3)\<close> is \<^verbatim>\<open>0.6\<close> again, and a quotient of two
  word counts exceeds the double \<^verbatim>\<open>0.7\<close> exactly when it exceeds \<open>7 / 10\<close>.
\<close>

datatype nonfinite = PosInf | NegInf | NaN

datatype pyfloat = Finite rat | NonFinite nonfinite

text \<open>
  A value found in a decoded response: \<open>None\<close>, a bool, a finite number (an int, or a
  float by the exact value of its double), a non-finite number (\<open>NaN\<close>, \<open>Infinity\<close>,
  \<open>-Infinity\<close>), a string, or a list or dict.
\<close>

datatype pyval = PNone | PBool bool | PNum rat | PNonFinite nonfinite | PStr string | POther

text \<open>
  \<^verbatim>\<open>float(v)\<close>. What \<^verbatim>\<open>float\<close> makes of a string is the parameter \<open>str_to_float\<close>
  (\<open>None\<close>: \<^verbatim>\<open>ValueError\<close>).
\<close>

fun float_py :: "(string \<Rightarrow> pyfloat option) \<Rightarrow> pyval \<Rightarrow> error + pyfloat" where
  "float_py str_to_float PNone = Inl TypeError"
| "float_py str_to_float (PBool b) = Inr (Finite (if b then 1 else 0))"
| "float_py str_to_float (PNum r) = Inr (Finite r)"
| "float_py str_to_float (PNonFinite n) = Inr (NonFinite n)"
| "float_py str_to_float (PStr s) =
     (case str_to_float s of None \<Rightarrow> Inl ValueError | Some f \<Rightarrow> Inr f)"
| "float_py str_to_float POther = Inl TypeError"

text \<open>\<^verbatim>\<open>lo <= x <= hi\<close> on floats: false for \<open>nan\<close> and for the infinities.\<close>

fun in_range :: "rat \<Rightarrow> rat \<Rightarrow> pyfloat \<Rightarrow> bool" where
  "in_range lo hi (Finite r) = (lo \<le> r \<and> r \<le> hi)"
| "in_range lo hi (NonFinite n) = False"

text \<open>
  \<^verbatim>\<open>round(x, n)\<close> of a float, given by the exact value \<open>r\<close> of its double: the multiple
  of \<open>10^-n\<close> nearest to \<open>r\<close>, a tie going to the even one. Only a double that lies
  exactly halfway makes a tie (\<open>21 / 8\<close> goes to 2.62); the double of \<^verbatim>\<open>2.665\<close> lies
  above the halfway point and goes to 2.67. The decimal returned stands for the float
  Python returns, the double nearest to it.
\<close>

definition round_half_even :: "rat \<Rightarrow> int" where
  "round_half_even r =
     (let f = \<lfloor>r\<rfloor>; d = r - of_int f
      in if d < 1 / 2 then f else if 1 / 2 < d then f + 1
         else if even f then f else f + 1)"

definition py_round :: "rat \<Rightarrow> nat \<Rightarrow> rat" where
  "py_round r n = of_int (round_half_even (r * 10 ^ n)) / 10 ^ n"

text \<open>\<^verbatim>\<open>str.lower()\<close>, on the characters a \<open>char\<close> can hold: the letters A to Z.\<close>

definition char_lower :: "char \<Rightarrow> char" where
  "char_lower c =
     (case map_of (zip ''ABCDEFGHIJKLMNOPQRSTUVWXYZ'' ''abcdefghijklmnopqrstuvwxyz'') c of
        Some l \<Rightarrow> l
      | None \<Rightarrow> c)"

definition lower :: "string \<Rightarrow> string" where
  "lower s = map char_lower s"

text \<open>
  \<^verbatim>\<open>max(xs, key=f)\<close>: the first element whose key no other exceeds; \<^verbatim>\<open>ValueError\<close> on
  an empty sequence. \<^verbatim>\<open>min\<close> is the mirror image.
\<close>

fun max_acc :: "('a \<Rightarrow> rat) \<Rightarrow> 'a \<Rightarrow> 'a list \<Rightarrow> 'a" where
  "max_acc f best [] = best"
| "max_acc f best (x # xs) = max_acc f (if f best < f x then x else best) xs"

fun py_max :: "('a \<Rightarrow> rat) \<Rightarrow> 'a list \<Rightarrow> error + 'a" where
  "py_max f [] = Inl ValueError"
| "py_max f (x # xs) = Inr (max_acc f x xs)"

text \<open>
  The same \<^verbatim>\<open>max\<close> with float keys: \<^verbatim>\<open>a > b\<close> is false as soon as one side is \<open>nan\<close>.
\<close>

fun float_gt :: "pyfloat \<Rightarrow> pyfloat \<Rightarrow> bool" where
  "float_gt (Finite a) (Finite b) = (b < a)"
| "float_gt (NonFinite NaN) y = False"
| "float_gt x (NonFinite NaN) = False"
| "float_gt (NonFinite PosInf) y = (y \<noteq> NonFinite PosInf)"
| "float_gt (NonFinite NegInf) y = False"
| "float_gt (Finite a) (NonFinite PosInf) = False"
| "float_gt (Finite a) (NonFinite NegInf) = True"

fun max_float_acc :: "('a \<Rightarrow> pyfloat) \<Rightarrow> 'a \<Rightarrow> 'a list \<Rightarrow> 'a" where
  "max_float_acc f best [] = best"
| "max_float_acc f best (x # xs) = max_float_acc f (if float_gt (f x) (f best) then x else best) xs"

fun min_acc :: "('a \<Rightarrow> rat) \<Rightarrow> 'a \<Rightarrow> 'a list \<Rightarrow> 'a" where
  "min_acc f best [] = best"
| "min_acc f best (x # xs) = min_acc f (if f x < f best then x else best) xs"

fun py_min :: "('a \<Rightarrow> rat) \<Rightarrow> 'a list \<Rightarrow> error + 'a" where
  "py_min f [] = Inl ValueError"
| "py_min f (x # xs) = Inr (min_acc f x xs)"

section \<open>The emotion model (\<^verbatim>\<open>src/models/emotion_analysis.py\<close>)\<close>

datatype EmotionCategory = HAPPINESS | SADNESS | ANGER | FEAR | LOVE

text \<open>Iterating over the enum gives its members in the order they are declared.\<close>

definition all_categories :: "EmotionCategory list" where
  "all_categories = [HAPPINESS, SADNESS, ANGER, FEAR, LOVE]"

fun category_value :: "EmotionCategory \<Rightarrow> string" where
  "category_value HAPPINESS = ''happiness''"
| "category_value SADNESS = ''sadness''"
| "category_value ANGER = ''anger''"
| "category_value FEAR = ''fear''"
| "category_value LOVE = ''love''"

fun EMOTION_DESCRIPTIONS :: "EmotionCategory \<Rightarrow> string" where
  "EMOTION_DESCRIPTIONS HAPPINESS = ''Joy, contentment, positive emotions''"
| "EMOTION_DESCRIPTIONS SADNESS = ''Melancholy, grief, sorrow''"
| "EMOTION_DESCRIPTIONS ANGER = ''Rage, frustration, hostility''"
| "EMOTION_DESCRIPTIONS FEAR = ''Anxiety, worry, dread''"
| "EMOTION_DESCRIPTIONS LOVE = ''Affection, romance, caring''"

datatype AnalysisStatus = PENDING | IN_PROGRESS | COMPLETED | FAILED | CACHED

record EmotionScore =
  emotion :: EmotionCategory
  score :: rat
  confidence :: "rat option"
  description :: string

text \<open>
  \<^verbatim>\<open>EmotionScore(emotion, score, confidence, description)\<close> with its \<^verbatim>\<open>__post_init__\<close>:
  the range checks, the rounding to two decimals, the default description.
\<close>

definition EmotionScore_init ::
  "EmotionCategory \<Rightarrow> pyfloat \<Rightarrow> pyfloat option \<Rightarrow> string option \<Rightarrow> error + EmotionScore" where
  "EmotionScore_init em sc conf desc =
     (case sc of
        NonFinite n \<Rightarrow> Inl ValueError
      | Finite s \<Rightarrow>
          if \<not> in_range 0 100 sc then Inl ValueError
          else (case conf of
                  Some (NonFinite n) \<Rightarrow> Inl ValueError
                | Some (Finite c) \<Rightarrow>
                    if \<not> in_range 0 1 (Finite c) then Inl ValueError
                    else Inr \<lparr>emotion = em, score = py_round s 2, confidence = Some c,
                              description = (case desc of Some d \<Rightarrow> if d = [] then EMOTION_DESCRIPTIONS em else d
                                             | None \<Rightarrow> EMOTION_DESCRIPTIONS em)\<rparr>
                | None \<Rightarrow>
                    Inr \<lparr>emotion = em, score = py_round s 2, confidence = None,
                         description = (case desc of Some d \<Rightarrow> if d = [] then EMOTION_DESCRIPTIONS em else d
                                        | None \<Rightarrow> EMOTION_DESCRIPTIONS em)\<rparr>))"

text \<open>\<^verbatim>\<open>EmotionAnalysisValidator.validate_confidence_score\<close> (\<^verbatim>\<open>src/utils/validators.py\<close>).\<close>

definition validate_confidence_score ::
  "(string \<Rightarrow> pyfloat option) \<Rightarrow> pyval \<Rightarrow> error + rat" where
  "validate_confidence_score str_to_float conf =
     (case float_py str_to_float conf of
        Inl e \<Rightarrow> Inl ValidationError
      | Inr (NonFinite n) \<Rightarrow> Inl ValidationError
      | Inr (Finite c) \<Rightarrow>
          if \<not> in_range 0 1 (Finite c) then Inl ValidationError
          else Inr (py_round c 3))"

text \<open>
  The result of an analysis. \<open>emotion_scores\<close> is the dict, as the list of its items in
  insertion order; \<open>result_status\<close> is the field \<^verbatim>\<open>status\<close> and \<open>times\<close> are seconds.
\<close>

record EmotionAnalysisResult =
  emotion_scores :: "(EmotionCategory \<times> EmotionScore) list"
  dominant_emotion :: EmotionCategory
  overall_confidence :: rat
  summary :: pyval
  analysis_model :: string
  processing_time :: "rat option"
  analyzed_at :: rat
  result_status :: AnalysisStatus

text \<open>
  \<^verbatim>\<open>get_dominant_emotion\<close>: \<^verbatim>\<open>max\<close> over the keys, the key of a key being the score
  stored under it, which for a key of the dict is the score of its item.
\<close>

definition get_dominant_emotion :: "(EmotionCategory \<times> EmotionScore) list \<Rightarrow> error + EmotionCategory" where
  "get_dominant_emotion items =
     (case py_max (\<lambda>(k, s). score s) items of Inl e \<Rightarrow> Inl e | Inr (k, s) \<Rightarrow> Inr k)"

text \<open>
  The constructor with its \<^verbatim>\<open>__post_init__\<close>: validate the confidence, compare the key
  set with the enum, recompute the dominant emotion. The key type leaves no room for an
  unexpected key, so only a missing one is reported.
\<close>

definition EmotionAnalysisResult_init ::
  "(string \<Rightarrow> pyfloat option) \<Rightarrow> (EmotionCategory \<times> EmotionScore) list \<Rightarrow> EmotionCategory \<Rightarrow>
   pyval \<Rightarrow> pyval \<Rightarrow> rat option \<Rightarrow> rat \<Rightarrow> error + EmotionAnalysisResult" where
  "EmotionAnalysisResult_init str_to_float scores dominant conf summ ptime now =
     (case validate_confidence_score str_to_float conf of
        Inl e \<Rightarrow> Inl e
      | Inr c \<Rightarrow>
          if set all_categories \<noteq> set (map fst scores) then Inl ValueError
          else (case get_dominant_emotion scores of
                  Inl e \<Rightarrow> Inl e
                | Inr actual_dominant \<Rightarrow>
                    Inr \<lparr>emotion_scores = scores,
                         dominant_emotion = (if dominant \<noteq> actual_dominant then actual_dominant else dominant),
                         overall_confidence = c,
                         summary = summ,
                         analysis_model = ''groq-ai'',
                         processing_time = ptime,
                         analyzed_at = now,
                         result_status = COMPLETED\<rparr>))"

text \<open>
  \<^verbatim>\<open>from_api_response\<close>. The payload is a dict from field names to values. The first
  loop builds one \<^verbatim>\<open>EmotionScore\<close> per category, in enum order.
\<close>

type_synonym payload = "string \<Rightarrow> pyval option"

definition dict_get :: "payload \<Rightarrow> string \<Rightarrow> pyval \<Rightarrow> pyval" where
  "dict_get d k dflt = (case d k of None \<Rightarrow> dflt | Some v \<Rightarrow> v)"

fun build_scores ::
  "(string \<Rightarrow> pyfloat option) \<Rightarrow> payload \<Rightarrow> EmotionCategory list \<Rightarrow>
   error + (EmotionCategory \<times> EmotionScore) list" where
  "build_scores str_to_float api [] = Inr []"
| "build_scores str_to_float api (c # cs) =
     (case float_py str_to_float (dict_get api (category_value c) (PNum 0)) of
        Inl e \<Rightarrow> Inl e
      | Inr f \<Rightarrow>
          (case EmotionScore_init c f None None of
             Inl e \<Rightarrow> Inl e
           | Inr s \<Rightarrow>
               (case build_scores str_to_float api cs of
                  Inl e \<Rightarrow> Inl e
                | Inr rest \<Rightarrow> Inr ((c, s) # rest))))"

text \<open>The second loop: the first category whose value is the claimed name.\<close>

fun find_category :: "string \<Rightarrow> EmotionCategory list \<Rightarrow> EmotionCategory option" where
  "find_category name [] = None"
| "find_category name (c # cs) = (if category_value c = name then Some c else find_category name cs)"

definition from_api_response ::
  "(string \<Rightarrow> pyfloat option) \<Rightarrow> payload \<Rightarrow> rat option \<Rightarrow> rat \<Rightarrow> error + EmotionAnalysisResult" where
  "from_api_response str_to_float api ptime now =
     (case build_scores str_to_float api all_categories of
        Inl e \<Rightarrow> Inl e
      | Inr scores \<Rightarrow>
          (case dict_get api ''dominant_emotion'' (PStr []) of
             PStr d \<Rightarrow>
               (case (case find_category (lower d) all_categories of
                        Some c \<Rightarrow> Inr c
                      | None \<Rightarrow> get_dominant_emotion scores) of
                  Inl e \<Rightarrow> Inl e
                | Inr dominant \<Rightarrow>
                    EmotionAnalysisResult_init str_to_float scores dominant
                      (dict_get api ''confidence'' (PNum 0)) (dict_get api ''summary'' PNone) ptime now)
           | _ \<Rightarrow> Inl AttributeError))"

text \<open>The score stored under a category, and what it means to be the argmax.\<close>

definition is_argmax :: "(EmotionCategory \<times> EmotionScore) list \<Rightarrow> EmotionCategory \<Rightarrow> bool" where
  "is_argmax items k =
     (\<exists>s. (k, s) \<in> set items \<and> (\<forall>(k', s') \<in> set items. score s' \<le> score s))"

subsection \<open>Sessions and history\<close>

text \<open>
  An analysis session; \<open>'song\<close> is the \<^verbatim>\<open>Song\<close> it is about, which no operation here
  reads. \<^verbatim>\<open>datetime.now()\<close> is the argument \<open>now\<close> of each operation.
\<close>

record 'song AnalysisSession =
  session_id :: string
  song :: 'song
  analysis_result :: "EmotionAnalysisResult option"
  error_message :: "string option"
  started_at :: rat
  completed_at :: "rat option"
  status :: AnalysisStatus


definition mark_completed ::
  "EmotionAnalysisResult \<Rightarrow> rat \<Rightarrow> 'song AnalysisSession \<Rightarrow> 'song AnalysisSession" where
  "mark_completed res now s =
     s\<lparr>analysis_result := Some res, completed_at := Some now, status := COMPLETED,
       error_message := None\<rparr>"

definition mark_failed :: "string \<Rightarrow> rat \<Rightarrow> 'song AnalysisSession \<Rightarrow> 'song AnalysisSession" where
  "mark_failed msg now s =
     s\<lparr>error_message := Some msg, completed_at := Some now, status := FAILED,
       analysis_result := None\<rparr>"

definition mark_cached ::
  "EmotionAnalysisResult \<Rightarrow> rat \<Rightarrow> 'song AnalysisSession \<Rightarrow> 'song AnalysisSession" where
  "mark_cached res now s =
     s\<lparr>analysis_result := Some res, completed_at := Some now, status := CACHED,
       error_message := None\<rparr>"

text \<open>A call of one of the three operations, and a sequence of calls.\<close>

datatype session_op =
    MarkCompleted EmotionAnalysisResult rat
  | MarkFailed string rat
  | MarkCached EmotionAnalysisResult rat

fun apply_session_op :: "session_op \<Rightarrow> 'song AnalysisSession \<Rightarrow> 'song AnalysisSession" where
  "apply_session_op (MarkCompleted res now) s = mark_completed res now s"
| "apply_session_op (MarkFailed msg now) s = mark_failed msg now s"
| "apply_session_op (MarkCached res now) s = mark_cached res now s"

fun run_session_ops :: "session_op list \<Rightarrow> 'song AnalysisSession \<Rightarrow> 'song AnalysisSession" where
  "run_session_ops [] s = s"
| "run_session_ops (x # xs) s = run_session_ops xs (apply_session_op x s)"

definition terminal :: "AnalysisStatus \<Rightarrow> bool" where
  "terminal st = (st = COMPLETED \<or> st = FAILED \<or> st = CACHED)"

fun op_status :: "session_op \<Rightarrow> AnalysisStatus" where
  "op_status (MarkCompleted res now) = COMPLETED"
| "op_status (MarkFailed msg now) = FAILED"
| "op_status (MarkCached res now) = CACHED"

record 'song AnalysisHistory =
  sessions :: "'song AnalysisSession list"
  created_at :: rat





section \<open>Strings\<close>

text \<open>
  \<^verbatim>\<open>str.isspace\<close> on one character, for the code points a \<open>char\<close> can hold: tab to
  carriage return, the four separators 28 to 31, the space, 133 and 160.
\<close>

definition is_space :: "char \<Rightarrow> bool" where
  "is_space c = ((of_char c :: nat) \<in> set [9, 10, 11, 12, 13, 28, 29, 30, 31, 32, 133, 160])"

text \<open>\<^verbatim>\<open>s.strip()\<close>.\<close>

definition strip :: "string \<Rightarrow> string" where
  "strip s = rev (dropWhile is_space (rev (dropWhile is_space s)))"

text \<open>
  \<^verbatim>\<open>s.split()\<close>: the maximal runs of characters that are not whitespace. \<open>cur\<close> is the
  run being read.
\<close>

fun split_acc :: "string \<Rightarrow> string \<Rightarrow> string list" where
  "split_acc cur [] = (if cur = [] then [] else [cur])"
| "split_acc cur (c # cs) =
     (if is_space c then (if cur = [] then split_acc [] cs else cur # split_acc [] cs)
      else split_acc (cur @ [c]) cs)"

definition split_ws :: "string \<Rightarrow> string list" where
  "split_ws s = split_acc [] s"

text \<open>\<^verbatim>\<open>s.split(sep)\<close> for a separator of one character.\<close>

fun split_on_acc :: "char \<Rightarrow> string \<Rightarrow> string \<Rightarrow> string list" where
  "split_on_acc sep cur [] = [cur]"
| "split_on_acc sep cur (c # cs) =
     (if c = sep then cur # split_on_acc sep [] cs else split_on_acc sep (cur @ [c]) cs)"

definition split_on :: "char \<Rightarrow> string \<Rightarrow> string list" where
  "split_on sep s = split_on_acc sep [] s"

text \<open>\<^verbatim>\<open>sub in s\<close>: \<open>sub\<close> occurs in \<open>s\<close> as a run of consecutive characters.\<close>

fun contains :: "string \<Rightarrow> string \<Rightarrow> bool" where
  "contains sub [] = (sub = [])"
| "contains sub (c # cs) = (take (length sub) (c # cs) = sub \<or> contains sub cs)"

text \<open>\<^verbatim>\<open>s.count(sub)\<close>: occurrences of \<open>sub\<close> in \<open>s\<close> that do not overlap, from the left.\<close>

fun count_sub :: "string \<Rightarrow> string \<Rightarrow> nat" where
  "count_sub sub [] = (if sub = [] then 1 else 0)"
| "count_sub sub (c # cs) =
     (if sub = [] then Suc (count_sub sub cs)
      else if take (length sub) (c # cs) = sub then Suc (count_sub sub (drop (length sub - 1) cs))
      else count_sub sub cs)"

section \<open>The inference service (\<^verbatim>\<open>src/services/ai_analysis_service.py\<close>)\<close>

subsection \<open>The fallback payload\<close>

text \<open>\<^verbatim>\<open>any(word in content_lower for word in words)\<close>.\<close>

definition any_word_in :: "string list \<Rightarrow> string \<Rightarrow> bool" where
  "any_word_in ws content_lower = list_ex (\<lambda>word. contains word content_lower) ws"

text \<open>The keyword list of each of the five \<^verbatim>\<open>if\<close> statements.\<close>

fun trigger_words :: "EmotionCategory \<Rightarrow> string list" where
  "trigger_words HAPPINESS = [''happy'', ''joy'', ''good'', ''positive'']"
| "trigger_words SADNESS = [''sad'', ''melancholy'', ''sorrow'', ''grief'']"
| "trigger_words ANGER = [''anger'', ''rage'', ''mad'', ''fury'']"
| "trigger_words FEAR = [''fear'', ''scared'', ''afraid'', ''anxious'']"
| "trigger_words LOVE = [''love'', ''romance'', ''affection'', ''caring'']"

text \<open>
  \<^verbatim>\<open>max(emotion_scores.keys(), key=lambda x: emotion_scores[x])\<close> on a dict from names to
  numbers.
\<close>

definition dominant_key :: "(string \<times> rat) list \<Rightarrow> error + string" where
  "dominant_key items = (case py_max snd items of Inl e \<Rightarrow> Inl e | Inr (k, v) \<Rightarrow> Inr k)"

definition create_fallback_response :: "string \<Rightarrow> error + payload" where
  "create_fallback_response content =
     (let content_lower = lower content;
          happiness = 20 + (if any_word_in (trigger_words HAPPINESS) content_lower then 30 else 0);
          sadness = 20 + (if any_word_in (trigger_words SADNESS) content_lower then 30 else 0);
          anger = 20 + (if any_word_in (trigger_words ANGER) content_lower then 30 else 0);
          fear = 20 + (if any_word_in (trigger_words FEAR) content_lower then 30 else 0);
          love = 20 + (if any_word_in (trigger_words LOVE) content_lower then 30 else 0);
          emotion_scores = [(''happiness'', happiness), (''sadness'', sadness), (''anger'', anger),
                            (''fear'', fear), (''love'', love)]
      in case dominant_key emotion_scores of
           Inl e \<Rightarrow> Inl e
         | Inr dominant \<Rightarrow>
             Inr [''happiness'' \<mapsto> PNum happiness,
                  ''sadness'' \<mapsto> PNum sadness,
                  ''anger'' \<mapsto> PNum anger,
                  ''fear'' \<mapsto> PNum fear,
                  ''love'' \<mapsto> PNum love,
                  ''dominant_emotion'' \<mapsto> PStr dominant,
                  ''confidence'' \<mapsto> PNum (6 / 10),
                  ''summary'' \<mapsto> PStr (''Analysis completed using fallback method. Dominant emotion detected: '' @ dominant)])"

text \<open>
  In the words of the specification: a keyword matches when it is one of the tokens of
  the lower-cased text.
\<close>

definition has_token :: "string \<Rightarrow> string \<Rightarrow> bool" where
  "has_token word text = (word \<in> set (split_ws (lower text)))"

subsection \<open>Parsing the response\<close>

text \<open>
  The calls of \<^verbatim>\<open>re.sub\<close> in the repository, each with its pattern and replacement. What
  \<^verbatim>\<open>re.sub\<close> and \<^verbatim>\<open>json.loads\<close> compute is a parameter of the functions that call them.
  In \<^verbatim>\<open>_fix_json_format\<close>: a code fence with \<^verbatim>\<open>json\<close>, a closing code fence, a comma
  before a closing bracket, a key without quotes. In \<^verbatim>\<open>_clean_lyrics\<close>: a bracketed
  section marker, blank lines, runs of spaces, and the five boilerplate patterns.
\<close>

datatype substitution =
    FenceJson | FenceEnd | TrailingComma | BareKey
  | Brackets | BlankLines | Spaces
  | LyricsLine | EmbedLine | ShareLine | ContributorsLine | TranslationLine

definition fix_json_format :: "(substitution \<Rightarrow> string \<Rightarrow> string) \<Rightarrow> string \<Rightarrow> string" where
  "fix_json_format re_sub json_str =
     strip (re_sub BareKey (re_sub TrailingComma (re_sub FenceEnd (re_sub FenceJson json_str))))"

text \<open>
  \<^verbatim>\<open>re.search(r'\{.*\}', content, re.DOTALL)\<close>: from the first opening brace to the last
  closing brace after it.
\<close>

definition find_json :: "string \<Rightarrow> string option" where
  "find_json content =
     (let from_brace = dropWhile (\<lambda>c. c \<noteq> CHR ''{'') content
      in if CHR ''}'' \<in> set from_brace
         then Some (rev (dropWhile (\<lambda>c. c \<noteq> CHR ''}'') (rev from_brace)))
         else None)"

text \<open>\<^verbatim>\<open>_ensure_required_fields\<close>.\<close>

definition required_fields :: "(string \<times> pyval) list" where
  "required_fields =
     [(''happiness'', PNum 0), (''sadness'', PNum 0), (''anger'', PNum 0), (''fear'', PNum 0),
      (''love'', PNum 0), (''confidence'', PNum (1 / 2)),
      (''summary'', PStr ''Analysis completed successfully'')]"

fun add_missing :: "(string \<times> pyval) list \<Rightarrow> payload \<Rightarrow> payload" where
  "add_missing [] d = d"
| "add_missing ((field, default_value) # rest) d =
     add_missing rest (if d field = None then d(field \<mapsto> default_value) else d)"

fun float_scores ::
  "(string \<Rightarrow> pyfloat option) \<Rightarrow> payload \<Rightarrow> string list \<Rightarrow> error + (string \<times> pyfloat) list" where
  "float_scores str_to_float d [] = Inr []"
| "float_scores str_to_float d (name # rest) =
     (case float_py str_to_float (dict_get d name (PNum 0)) of
        Inl e \<Rightarrow> Inl e
      | Inr f \<Rightarrow>
          (case float_scores str_to_float d rest of
             Inl e \<Rightarrow> Inl e
           | Inr fs \<Rightarrow> Inr ((name, f) # fs)))"

definition ensure_required_fields :: "(string \<Rightarrow> pyfloat option) \<Rightarrow> payload \<Rightarrow> error + payload" where
  "ensure_required_fields str_to_float data0 =
     (let d = add_missing required_fields data0
      in if d ''dominant_emotion'' \<noteq> None then Inr d
         else (case float_scores str_to_float d [''happiness'', ''sadness'', ''anger'', ''fear'', ''love''] of
                 Inl e \<Rightarrow> Inl e
               | Inr [] \<Rightarrow> Inl ValueError
               | Inr (first # rest) \<Rightarrow>
                   Inr (d(''dominant_emotion'' \<mapsto> PStr (fst (max_float_acc snd first rest))))))"

text \<open>
  What the service is given: the library functions, the prompt template of
  \<^verbatim>\<open>constants.py\<close> as a function of the lyrics, the answer of \<^verbatim>\<open>_make_request\<close> to a
  prompt (an exception, or the \<^verbatim>\<open>content\<close> of the message of each choice, \<^verbatim>\<open>''\<close> when it
  is missing), the processing time and the time of construction.
\<close>

record groq_env =
  float_of_str :: "string \<Rightarrow> pyfloat option"
  json_loads :: "string \<Rightarrow> payload option"
  re_sub :: "substitution \<Rightarrow> string \<Rightarrow> string"
  prompt_template :: "string \<Rightarrow> string"
  make_request :: "string \<Rightarrow> error + pyval list"
  elapsed :: rat
  clock_now :: rat

text \<open>
  \<^verbatim>\<open>_parse_analysis_response\<close>. Every exception inside its \<^verbatim>\<open>try\<close> leaves as
  \<^verbatim>\<open>AnalysisError\<close>; a content that is not a string is either falsy or has no
  \<^verbatim>\<open>strip\<close>.
\<close>

definition parse_analysis_response :: "groq_env \<Rightarrow> pyval list \<Rightarrow> error + payload" where
  "parse_analysis_response env choices =
     (case choices of
        [] \<Rightarrow> Inl AnalysisError
      | choice # others \<Rightarrow>
          (case choice of
             PStr content0 \<Rightarrow>
               if content0 = [] then Inl AnalysisError
               else (let content = strip content0
                     in case (case find_json content of
                                None \<Rightarrow> create_fallback_response content
                              | Some json_str \<Rightarrow>
                                  (case json_loads env json_str of
                                     Some parsed_data \<Rightarrow> ensure_required_fields (float_of_str env) parsed_data
                                   | None \<Rightarrow>
                                       (case json_loads env (fix_json_format (re_sub env) json_str) of
                                          Some parsed_data \<Rightarrow>
                                            ensure_required_fields (float_of_str env) parsed_data
                                        | None \<Rightarrow> create_fallback_response content))) of
                          Inl e \<Rightarrow> Inl AnalysisError
                        | Inr parsed \<Rightarrow> Inr parsed)
           | _ \<Rightarrow> Inl AnalysisError))"

subsection \<open>The analysis\<close>



text \<open>
  The score the fallback gives a category: the baseline of 20, and 30 more when one of
  the category's keywords occurs in the lower-cased text.
\<close>

definition keyword_score :: "string \<Rightarrow> EmotionCategory \<Rightarrow> rat" where
  "keyword_score raw c = 20 + (if any_word_in (trigger_words c) (lower raw) then 30 else 0)"

text \<open>
  In the words of the specification: some keyword of the list is a token of the text.
  And the field a name has in the fallback payload of a text.
\<close>

definition token_hit :: "string list \<Rightarrow> string \<Rightarrow> bool" where
  "token_hit ws raw = list_ex (\<lambda>w. has_token w raw) ws"

definition fallback_field :: "string \<Rightarrow> string \<Rightarrow> pyval option" where
  "fallback_field raw name = (case create_fallback_response raw of Inl e \<Rightarrow> None | Inr p \<Rightarrow> p name)"

section \<open>The catalog service (\<^verbatim>\<open>src/services/genius_service.py\<close>)\<close>

subsection \<open>Rate limiter\<close>

text \<open>
  A \<^verbatim>\<open>datetime\<close> is a rational number of seconds; \<^verbatim>\<open>datetime.now()\<close> is an argument of
  the operation that reads the clock, one argument for each read.
\<close>

record RateLimiter =
  max_requests :: int
  time_window :: int
  requests :: "rat list"

definition RateLimiter_init :: "int \<Rightarrow> int \<Rightarrow> RateLimiter" where
  "RateLimiter_init n w = \<lparr>max_requests = n, time_window = w, requests = []\<rparr>"

definition can_make_request :: "rat \<Rightarrow> RateLimiter \<Rightarrow> bool \<times> RateLimiter" where
  "can_make_request now rl =
     (let rl' = rl\<lparr>requests := filter (\<lambda>req_time. now - req_time < of_int (time_window rl)) (requests rl)\<rparr>
      in (int (length (requests rl')) < max_requests rl', rl'))"

definition record_request :: "rat \<Rightarrow> RateLimiter \<Rightarrow> RateLimiter" where
  "record_request now rl = rl\<lparr>requests := requests rl @ [now]\<rparr>"

text \<open>
  \<^verbatim>\<open>time_until_next_request\<close> reads the clock twice: \<open>now1\<close> inside
  \<^verbatim>\<open>can_make_request\<close>, \<open>now2\<close> in its last line.
\<close>

definition time_until_next_request :: "rat \<Rightarrow> rat \<Rightarrow> RateLimiter \<Rightarrow> (error + rat) \<times> RateLimiter" where
  "time_until_next_request now1 now2 rl =
     (case can_make_request now1 rl of
        (True, rl') \<Rightarrow> (Inr 0, rl')
      | (False, rl') \<Rightarrow>
          (case py_min (\<lambda>t. t) (requests rl') of
             Inl e \<Rightarrow> (Inl e, rl')
           | Inr oldest_request \<Rightarrow>
               (Inr (oldest_request + of_int (time_window rl') - now2), rl')))"

subsection \<open>Similarity and the best match\<close>

record SearchResult =
  song_id :: int
  title :: string
  artist_name :: string
  url :: string
  thumbnail_url :: "string option"
  view_count :: "int option"

text \<open>\<^verbatim>\<open>_similarity_score\<close>: Jaccard similarity of the two word sets.\<close>

definition similarity_score :: "string \<Rightarrow> string \<Rightarrow> rat" where
  "similarity_score str1 str2 =
     (let words1 = set (split_ws (lower str1));
          words2 = set (split_ws (lower str2))
      in if words1 = {} \<and> words2 = {} then 1
         else if words1 = {} \<or> words2 = {} then 0
         else of_nat (card (words1 \<inter> words2)) / of_nat (card (words1 \<union> words2)))"

text \<open>
  \<^verbatim>\<open>InputValidator.validate_song_name\<close> and \<^verbatim>\<open>validate_artist_name\<close>
  (\<^verbatim>\<open>src/utils/validators.py\<close>). On a stripped string, \<^verbatim>\<open>re.match\<close> of
  \<^verbatim>\<open>^[...]+$\<close> holds when the string is not empty and every character is in the class.
\<close>

definition is_alnum :: "char \<Rightarrow> bool" where
  "is_alnum c = (c \<in> set ''abcdefghijklmnopqrstuvwxyzABCDEFGHIJKLMNOPQRSTUVWXYZ0123456789'')"

definition valid_song_char :: "char \<Rightarrow> bool" where
  "valid_song_char c =
     (is_alnum c \<or> is_space c \<or> c \<in> set ''-()[].!?'' \<or> c = CHR 0x27 \<or> c = CHR 0x22)"

definition valid_artist_char :: "char \<Rightarrow> bool" where
  "valid_artist_char c =
     (is_alnum c \<or> is_space c \<or> c \<in> set ''-().&'' \<or> c = CHR 0x27 \<or> c = CHR 0x22)"

definition validate_song_name :: "string \<Rightarrow> error + string" where
  "validate_song_name song_name =
     (if song_name = [] then Inl ValidationError
      else let cleaned_name = strip song_name
           in if length cleaned_name < 1 then Inl ValidationError
              else if 200 < length cleaned_name then Inl ValidationError
              else if \<not> (cleaned_name \<noteq> [] \<and> list_all valid_song_char cleaned_name)
                   then Inl ValidationError
              else Inr cleaned_name)"

definition validate_artist_name :: "string \<Rightarrow> error + string" where
  "validate_artist_name artist =
     (if artist = [] then Inl ValidationError
      else let cleaned_name = strip artist
           in if length cleaned_name < 1 then Inl ValidationError
              else if 100 < length cleaned_name then Inl ValidationError
              else if \<not> (cleaned_name \<noteq> [] \<and> list_all valid_artist_char cleaned_name)
                   then Inl ValidationError
              else Inr cleaned_name)"

text \<open>
  The loop of \<^verbatim>\<open>find_and_fetch_song\<close> over the search results: the test made on each
  result, and the first result that passes it.
\<close>

definition is_confident_match :: "string \<Rightarrow> string \<Rightarrow> SearchResult \<Rightarrow> bool" where
  "is_confident_match song_name artist result =
     (let title_match = similarity_score (lower song_name) (lower (title result));
          artist_match = similarity_score (lower artist) (lower (artist_name result))
      in 7 / 10 < title_match \<and> 7 / 10 < artist_match)"

fun first_confident :: "string \<Rightarrow> string \<Rightarrow> SearchResult list \<Rightarrow> SearchResult option" where
  "first_confident song_name artist [] = None"
| "first_confident song_name artist (result # rest) =
     (if is_confident_match song_name artist result then Some result
      else first_confident song_name artist rest)"

text \<open>
  From the search results to \<^verbatim>\<open>best_match\<close>: no result raises, a confident match is
  taken, and \<^verbatim>\<open>search_results[0]\<close> stands in when there is none.
\<close>

fun select_best_match :: "string \<Rightarrow> string \<Rightarrow> SearchResult list \<Rightarrow> error + SearchResult" where
  "select_best_match song_name artist [] = Inl LyricsNotFoundError"
| "select_best_match song_name artist (first # rest) =
     (case first_confident song_name artist (first # rest) of
        Some best_match \<Rightarrow> Inr best_match
      | None \<Rightarrow> Inr first)"

text \<open>The song model of \<^verbatim>\<open>src/models/song_data.py\<close>.\<close>

record SongMetadata =
  song_id :: int
  title :: string
  artist_name :: string
  album :: "string option"
  release_date :: "string option"
  genius_url :: "string option"
  thumbnail_url :: "string option"
  view_count :: "int option"
  annotation_count :: "int option"
  featured_artists :: "string list"
  producers :: "string list"
  writers :: "string list"

record LyricsData =
  content :: string
  language :: string
  word_count :: nat
  line_count :: nat
  verse_count :: nat
  chorus_count :: nat
  bridge_count :: nat
  retrieved_at :: rat
  source :: string

definition LyricsData_init :: "string \<Rightarrow> rat \<Rightarrow> error + LyricsData" where
  "LyricsData_init text now =
     (if text = [] \<or> strip text = [] then Inl ValueError
      else let c = strip text; content_lower = lower c
           in Inr \<lparr>content = c, language = ''en'',
                    word_count = length (split_ws c),
                    line_count = length (filter (\<lambda>line. strip line \<noteq> []) (split_on CHR 0x0A c)),
                    verse_count = count_sub ''[verse'' content_lower + count_sub ''verse '' content_lower,
                    chorus_count = count_sub ''[chorus'' content_lower + count_sub ''chorus '' content_lower,
                    bridge_count = count_sub ''[bridge'' content_lower + count_sub ''bridge '' content_lower,
                    retrieved_at = now, source = ''genius''\<rparr>)"

record Song =
  metadata :: SongMetadata
  lyrics :: "LyricsData option"
  search_query :: "string option"
  created_at :: rat

text \<open>
  What \<^verbatim>\<open>find_and_fetch_song\<close> calls on the service: the search, the metadata request
  and the scraping of the page, each with its own result or exception.
\<close>

record genius_env =
  search_songs :: "string \<Rightarrow> int \<Rightarrow> error + SearchResult list"
  get_song_details :: "int \<Rightarrow> error + SongMetadata"
  scrape_lyrics_of :: "string option \<Rightarrow> error + string"

text \<open>The part of \<^verbatim>\<open>find_and_fetch_song\<close> after the choice of \<^verbatim>\<open>best_match\<close>.\<close>

definition fetch_song :: "genius_env \<Rightarrow> string \<Rightarrow> SearchResult \<Rightarrow> rat \<Rightarrow> error + Song" where
  "fetch_song env query best_match now =
     (case get_song_details env (SearchResult.song_id best_match) of
        Inl e \<Rightarrow> Inl e
      | Inr md \<Rightarrow>
          (case scrape_lyrics_of env (genius_url md) of
             Inl e \<Rightarrow> Inl e
           | Inr lyrics_content \<Rightarrow>
               (case LyricsData_init lyrics_content now of
                  Inl e \<Rightarrow> Inl e
                | Inr lyrics_data \<Rightarrow>
                    Inr \<lparr>metadata = md, lyrics = Some lyrics_data,
                         search_query = Some query, created_at = now\<rparr>)))"

definition find_and_fetch_song :: "genius_env \<Rightarrow> string \<Rightarrow> string \<Rightarrow> rat \<Rightarrow> error + Song" where
  "find_and_fetch_song env song_name0 artist_name0 now =
     (case validate_song_name song_name0 of
        Inl e \<Rightarrow> Inl e
      | Inr song_name \<Rightarrow>
          (case validate_artist_name artist_name0 of
             Inl e \<Rightarrow> Inl e
           | Inr artist \<Rightarrow>
               (let search_query = song_name @ '' '' @ artist
                in case search_songs env search_query 10 of
                     Inl e \<Rightarrow> Inl e
                   | Inr search_results \<Rightarrow>
                       (case select_best_match song_name artist search_results of
                          Inl e \<Rightarrow> Inl e
                        | Inr best_match \<Rightarrow> fetch_song env search_query best_match now))))"

subsection \<open>Response cache\<close>

text \<open>
  The dict \<^verbatim>\<open>_cache\<close> as the list of its items in insertion order. Assigning to a key
  that is present replaces its value in place, to a new key appends an item; \<^verbatim>\<open>del\<close>
  removes the key's item.
\<close>

fun dict_set :: "'k \<Rightarrow> 'v \<Rightarrow> ('k \<times> 'v) list \<Rightarrow> ('k \<times> 'v) list" where
  "dict_set k v [] = [(k, v)]"
| "dict_set k v ((k', v') # d) = (if k' = k then (k, v) # d else (k', v') # dict_set k v d)"

definition dict_del :: "'k \<Rightarrow> ('k \<times> 'v) list \<Rightarrow> ('k \<times> 'v) list" where
  "dict_del k d = filter (\<lambda>(k', v'). k' \<noteq> k) d"

record 'v GeniusAPICache =
  max_size :: int
  ttl_seconds :: int
  cache :: "(string \<times> ('v \<times> rat)) list"

definition GeniusAPICache_init :: "int \<Rightarrow> int \<Rightarrow> 'v GeniusAPICache" where
  "GeniusAPICache_init n ttl = \<lparr>max_size = n, ttl_seconds = ttl, cache = []\<rparr>"

text \<open>\<^verbatim>\<open>get\<close>: the value or \<open>None\<close>, and the cache afterwards.\<close>

definition cache_get :: "string \<Rightarrow> rat \<Rightarrow> 'v GeniusAPICache \<Rightarrow> 'v option \<times> 'v GeniusAPICache" where
  "cache_get key now c =
     (case map_of (cache c) key of
        None \<Rightarrow> (None, c)
      | Some (v, timestamp) \<Rightarrow>
          if of_int (ttl_seconds c) < now - timestamp
          then (None, c\<lparr>cache := dict_del key (cache c)\<rparr>)
          else (Some v, c))"

text \<open>
  \<^verbatim>\<open>set\<close>. The oldest key is \<^verbatim>\<open>min\<close> over the keys by the timestamp stored under each,
  which is the timestamp of the key's item.
\<close>

definition cache_set :: "string \<Rightarrow> 'v \<Rightarrow> rat \<Rightarrow> 'v GeniusAPICache \<Rightarrow> error + 'v GeniusAPICache" where
  "cache_set key v now c =
     (if max_size c \<le> int (length (cache c))
      then (case py_min (\<lambda>(k, (v', timestamp)). timestamp) (cache c) of
              Inl e \<Rightarrow> Inl e
            | Inr (oldest_key, x) \<Rightarrow>
                Inr (c\<lparr>cache := dict_set key (v, now) (dict_del oldest_key (cache c))\<rparr>))
      else Inr (c\<lparr>cache := dict_set key (v, now) (cache c)\<rparr>))"

subsection \<open>Scraping the lyrics\<close>

text \<open>
  The parsed page. An element has an identity (the number), a tag, attributes and
  children; \<open>Text\<close> is a string of the page. This is the part of the document tree that
  \<^verbatim>\<open>scrape_lyrics\<close> reads through \<^verbatim>\<open>select\<close>, \<^verbatim>\<open>find_all\<close>, \<^verbatim>\<open>decompose\<close> and
  \<^verbatim>\<open>get_text\<close>; the identity stands for the Python object, which stays the same while
  the tree around it is changed.
\<close>

datatype html = Text string | Element nat string "(string \<times> string) list" "html list"

fun node_id :: "html \<Rightarrow> nat option" where
  "node_id (Text s) = None"
| "node_id (Element i tag attrs children) = Some i"

text \<open>The nodes below a node, in document order.\<close>

fun descendants :: "html \<Rightarrow> html list" where
  "descendants (Text s) = []"
| "descendants (Element i tag attrs children) = concat (map (\<lambda>c. c # descendants c) children)"

text \<open>
  The simple selectors of the page: \<^verbatim>\<open>div[class*="..."]\<close>, \<^verbatim>\<open>div[name="value"]\<close> and a
  tag name. A selector list, as in \<^verbatim>\<open>'div[class*="ad"], script, style'\<close>, matches what
  one of its members matches.
\<close>

datatype selector = DivClassContains string | DivAttrEquals string string | TagIs string

fun matches :: "selector \<Rightarrow> html \<Rightarrow> bool" where
  "matches sel (Text s) = False"
| "matches (TagIs t) (Element i tag attrs children) = (tag = t)"
| "matches (DivClassContains sub) (Element i tag attrs children) =
     (tag = ''div'' \<and> (case map_of attrs ''class'' of None \<Rightarrow> False | Some v \<Rightarrow> contains sub v))"
| "matches (DivAttrEquals name v) (Element i tag attrs children) =
     (tag = ''div'' \<and> map_of attrs name = Some v)"

definition select_nodes :: "html \<Rightarrow> selector list \<Rightarrow> html list" where
  "select_nodes n sels = filter (\<lambda>d. list_ex (\<lambda>sel. matches sel d) sels) (descendants n)"

text \<open>\<^verbatim>\<open>soup.select(selector)\<close>: the matching elements below the root, by identity.\<close>

definition select :: "html \<Rightarrow> selector list \<Rightarrow> nat list" where
  "select soup sels = List.map_filter node_id (select_nodes soup sels)"

text \<open>The element of a given identity as it now stands in the tree, if it still is there.\<close>

definition find_node :: "nat \<Rightarrow> html \<Rightarrow> html option" where
  "find_node i soup = List.find (\<lambda>d. node_id d = Some i) (descendants soup)"

text \<open>\<^verbatim>\<open>container.select(selector)\<close>.\<close>

definition select_in :: "html \<Rightarrow> nat \<Rightarrow> selector list \<Rightarrow> nat list" where
  "select_in soup container sels =
     (case find_node container soup of None \<Rightarrow> [] | Some n \<Rightarrow> select n sels)"

text \<open>\<^verbatim>\<open>unwanted.decompose()\<close>: the element leaves the tree with all it contains.\<close>

fun decompose :: "nat \<Rightarrow> html \<Rightarrow> html" where
  "decompose i (Text s) = Text s"
| "decompose i (Element j tag attrs children) =
     Element j tag attrs (map (decompose i) (filter (\<lambda>c. node_id c \<noteq> Some i) children))"

text \<open>
  \<^verbatim>\<open>get_text(separator, strip=True)\<close>: the strings below the node, each stripped, the
  empty ones dropped, joined by the separator. An element that has been decomposed has
  no strings.
\<close>

fun all_strings :: "html \<Rightarrow> string list" where
  "all_strings (Text s) = [s]"
| "all_strings (Element i tag attrs children) = concat (map all_strings children)"

fun join :: "string \<Rightarrow> string list \<Rightarrow> string" where
  "join sep [] = []"
| "join sep [s] = s"
| "join sep (s # t # rest) = s @ sep @ join sep (t # rest)"

definition get_text :: "string \<Rightarrow> html \<Rightarrow> string" where
  "get_text separator n = join separator (filter (\<lambda>s. s \<noteq> []) (map strip (all_strings n)))"

definition get_text_of :: "html \<Rightarrow> nat \<Rightarrow> string \<Rightarrow> string" where
  "get_text_of soup i separator =
     (case find_node i soup of None \<Rightarrow> [] | Some n \<Rightarrow> get_text separator n)"

text \<open>
  \<^verbatim>\<open>_clean_lyrics\<close>, over the substitutions it makes; \<open>subst\<close> is \<^verbatim>\<open>re.sub\<close>.
\<close>

definition clean_lyrics :: "(substitution \<Rightarrow> string \<Rightarrow> string) \<Rightarrow> string \<Rightarrow> string" where
  "clean_lyrics subst raw_lyrics =
     strip (fold subst [LyricsLine, EmbedLine, ShareLine, ContributorsLine, TranslationLine]
              (subst Spaces (subst BlankLines (subst Brackets raw_lyrics))))"

definition lyrics_selectors :: "selector list list" where
  "lyrics_selectors =
     [[DivClassContains ''lyrics''],
      [DivAttrEquals ''data-lyrics-container'' ''true''],
      [DivClassContains ''Lyrics__Container''],
      [DivClassContains ''SongPageGrid-sc'']]"

definition unwanted_selector :: "selector list" where
  "unwanted_selector = [DivClassContains ''ad'', TagIs ''script'', TagIs ''style'']"

definition newline :: string where
  "newline = [CHR 0x0A]"

text \<open>
  The body of the inner loop for one container: decompose what is unwanted below it,
  read its text, and append the text and a line break when it is long enough. The state
  is the tree and \<^verbatim>\<open>lyrics_text\<close>.
\<close>

definition strip_unwanted :: "nat \<Rightarrow> html \<Rightarrow> html" where
  "strip_unwanted container soup = fold decompose (select_in soup container unwanted_selector) soup"

definition process_container :: "nat \<Rightarrow> html \<times> string \<Rightarrow> html \<times> string" where
  "process_container container st =
     (let soup = strip_unwanted container (fst st);
          text = get_text_of soup container newline
      in (soup, if text \<noteq> [] \<and> 50 < length text then snd st @ text @ newline else snd st))"

definition process_selector :: "selector list \<Rightarrow> html \<times> string \<Rightarrow> html \<times> string" where
  "process_selector sel st = fold process_container (select (fst st) sel) st"

text \<open>The fallback: the first \<^verbatim>\<open>div\<close> with more than 200 characters and a line break.\<close>

definition fallback_text :: "html \<Rightarrow> string" where
  "fallback_text soup =
     (case List.find (\<lambda>text. 200 < length text \<and> CHR 0x0A \<in> set text)
             (map (get_text []) (select_nodes soup [TagIs ''div''])) of
        None \<Rightarrow> []
      | Some text \<Rightarrow> text)"

text \<open>\<^verbatim>\<open>lyrics_text\<close> as it reaches \<^verbatim>\<open>_clean_lyrics\<close>.\<close>

definition collect_lyrics_text :: "html \<Rightarrow> string" where
  "collect_lyrics_text soup0 =
     (let st = fold process_selector lyrics_selectors (soup0, [])
      in if snd st = [] then fallback_text (fst st) else snd st)"

text \<open>
  \<^verbatim>\<open>scrape_lyrics\<close>. The response is the parsed page, or the exception of the request;
  a \<^verbatim>\<open>RequestException\<close> becomes \<^verbatim>\<open>NetworkError\<close>, any other one
  \<^verbatim>\<open>LyricsNotFoundError\<close>.
\<close>

definition scrape_lyrics ::
  "(substitution \<Rightarrow> string \<Rightarrow> string) \<Rightarrow> string option \<Rightarrow> error + html \<Rightarrow> error + string" where
  "scrape_lyrics subst page_url response =
     (if page_url = None \<or> page_url = Some [] then Inl ValueError
      else (case response of
              Inl e \<Rightarrow> if e = RequestException then Inl NetworkError else Inl LyricsNotFoundError
            | Inr soup \<Rightarrow>
                (let lyrics_text = collect_lyrics_text soup
                 in if lyrics_text = [] then Inl LyricsNotFoundError
                    else (let cleaned = clean_lyrics subst lyrics_text
                          in if length (strip cleaned) < 20 then Inl LyricsNotFoundError
                             else Inr cleaned))))"

text \<open>
  The candidates in the order the loops meet them: for each selector in turn and each
  of its containers in document order, the text read after the unwanted nodes are gone.
\<close>

definition container_text :: "nat \<Rightarrow> html \<times> string list \<Rightarrow> html \<times> string list" where
  "container_text container st =
     (let soup = strip_unwanted container (fst st)
      in (soup, snd st @ [get_text_of soup container newline]))"

definition selector_texts :: "selector list \<Rightarrow> html \<times> string list \<Rightarrow> html \<times> string list" where
  "selector_texts sel st = fold container_text (select (fst st) sel) st"

definition candidate_texts :: "html \<Rightarrow> string list" where
  "candidate_texts soup0 = snd (fold selector_texts lyrics_selectors (soup0, []))"

definition accepted :: "string \<Rightarrow> bool" where
  "accepted text = (text \<noteq> [] \<and> 50 < length text)"

text \<open>In the words of the specification: the first candidate that is long enough.\<close>

definition first_accepted :: "html \<Rightarrow> string option" where
  "first_accepted soup0 = List.find accepted (candidate_texts soup0)"

text \<open>The accepted ones among some candidates, each followed by a line break.\<close>

definition joined :: "string list \<Rightarrow> string" where
  "joined texts = concat (map (\<lambda>text. text @ newline) (filter accepted texts))"

section \<open>Concrete inputs\<close>

text \<open>
  A decoded response whose claimed dominant emotion (sadness) is not the highest score,
  and the result \<^verbatim>\<open>from_api_response\<close> builds from it. The response text has
  \<^verbatim>\<open>2.665\<close> for sadness, \<^verbatim>\<open>2.625\<close> for anger and \<^verbatim>\<open>0.87654\<close> for the confidence; the
  payload holds the doubles of these, and the result what \<^verbatim>\<open>round\<close> makes of them:
  2.67, 2.62 and 0.877.
\<close>

definition ex_payload :: payload where
  "ex_payload =
     [''happiness'' \<mapsto> PNum 80,
      ''sadness'' \<mapsto> PNum (3000523251735593 / 1125899906842624),
      ''anger'' \<mapsto> PNum (21 / 8),
      ''fear'' \<mapsto> PNum 5, ''love'' \<mapsto> PNum 0, ''dominant_emotion'' \<mapsto> PStr ''Sadness'',
      ''confidence'' \<mapsto> PNum (7895170434750669 / 9007199254740992),
      ''summary'' \<mapsto> PStr ''ok'']"

definition ex_result :: EmotionAnalysisResult where
  "ex_result =
     \<lparr>emotion_scores =
        [(HAPPINESS, \<lparr>emotion = HAPPINESS, score = 80, confidence = None,
             description = ''Joy, contentment, positive emotions''\<rparr>),
         (SADNESS, \<lparr>emotion = SADNESS, score = 267 / 100, confidence = None,
             description = ''Melancholy, grief, sorrow''\<rparr>),
         (ANGER, \<lparr>emotion = ANGER, score = 131 / 50, confidence = None,
             description = ''Rage, frustration, hostility''\<rparr>),
         (FEAR, \<lparr>emotion = FEAR, score = 5, confidence = None,
             description = ''Anxiety, worry, dread''\<rparr>),
         (LOVE, \<lparr>emotion = LOVE, score = 0, confidence = None,
             description = ''Affection, romance, caring''\<rparr>)],
      dominant_emotion = HAPPINESS, overall_confidence = 877 / 1000,
      summary = PStr ''ok'', analysis_model = ''groq-ai'',
      processing_time = None, analyzed_at = 0, result_status = COMPLETED\<rparr>"

text \<open>A fresh session, and a history of one completed and one failed session.\<close>

definition ex_session :: "unit AnalysisSession" where
  "ex_session =
     \<lparr>session_id = ''s1'', song = (), analysis_result = None, error_message = None,
      started_at = 0, completed_at = None, status = PENDING\<rparr>"


text \<open>Three search results for the query "Hello Adele", and a service that returns them.\<close>

definition ex_results :: "SearchResult list" where
  "ex_results =
     [\<lparr>SearchResult.song_id = 11, title = ''Hello Again'', artist_name = ''Neil Diamond'', url = ''u1'',
       thumbnail_url = None, view_count = None\<rparr>,
      \<lparr>SearchResult.song_id = 12, title = ''HELLO'', artist_name = ''Adele'', url = ''u2'',
       thumbnail_url = None, view_count = Some 5\<rparr>,
      \<lparr>SearchResult.song_id = 13, title = ''Hello'', artist_name = ''adele'', url = ''u3'',
       thumbnail_url = None, view_count = None\<rparr>]"


definition ex_env :: genius_env where
  "ex_env =
     \<lparr>search_songs = (\<lambda>query limit. Inr ex_results),
      get_song_details = (\<lambda>i. Inl GeniusAPIError),
      scrape_lyrics_of = (\<lambda>u. Inl LyricsNotFoundError)\<rparr>"

text \<open>A cache at its capacity of two entries, and the cache after one more \<^verbatim>\<open>set\<close>.\<close>

definition ex_cache :: "string GeniusAPICache" where
  "ex_cache = \<lparr>max_size = 2, ttl_seconds = 3600,
     cache = [(''search:b:10'', (''B'', 20)), (''search:a:10'', (''A'', 10))]\<rparr>"

definition ex_cache_after :: "string GeniusAPICache" where
  "ex_cache_after = \<lparr>max_size = 2, ttl_seconds = 3600,
     cache = [(''search:b:10'', (''B'', 20)), (''song:7'', (''S'', 30))]\<rparr>"

text \<open>A limiter of 3 requests per 60 seconds after three recorded requests.\<close>

definition three_requests :: "rat \<Rightarrow> rat \<Rightarrow> rat \<Rightarrow> RateLimiter" where
  "three_requests t1 t2 t3 =
     record_request t3 (record_request t2 (record_request t1 (RateLimiter_init 3 60)))"

text \<open>
  An inference service that answers every prompt with the given message contents, with
  a JSON parser that rejects every text and substitutions that change nothing.
\<close>

definition ex_groq_env :: "pyval list \<Rightarrow> groq_env" where
  "ex_groq_env choices =
     \<lparr>float_of_str = (\<lambda>s. None), json_loads = (\<lambda>s. None), re_sub = (\<lambda>pat s. s),
      prompt_template = (\<lambda>lyrics. ''Lyrics: '' @ lyrics),
      make_request = (\<lambda>prompt. Inr choices), elapsed = 1, clock_now = 0\<rparr>"

text \<open>
  A page with two lyrics containers, and a page whose lyrics container holds a section
  marker, two verses, an advertisement and a script.
\<close>

definition verse_a :: string where
  "verse_a = ''First verse of the song, sung slowly over the piano line''"
definition verse_b :: string where
  "verse_b = ''Second verse of the song, louder now and with the drums''"

definition ex_page :: html where
  "ex_page =
     Element 0 ''[document]'' []
       [Element 1 ''div'' [(''class'', ''lyrics'')] [Text verse_a],
        Element 2 ''div'' [(''class'', ''lyrics'')] [Text verse_b]]"

definition ex_page_ad :: html where
  "ex_page_ad =
     Element 0 ''[document]'' []
       [Element 1 ''div'' [(''class'', ''header'')] [Text ''Genius''],
        Element 2 ''div'' [(''data-lyrics-container'', ''true'')]
          [Text '' [Verse 1] '', Text verse_a,
           Element 3 ''div'' [(''class'', ''ad-unit'')] [Text ''Buy tickets now''],
           Element 4 ''br'' [] [],
           Text verse_b,
           Element 5 ''script'' [] [Text ''track()'']]]"



section \<open>Results\<close>

subsection \<open>Rounding and \<^verbatim>\<open>max\<close>\<close>

lemma rhe_lower: "of_int a \<le> r \<Longrightarrow> a \<le> round_half_even r"
  unfolding round_half_even_def Let_def by (auto simp: le_floor_iff) linarith+

lemma rhe_upper: "r \<le> of_int b \<Longrightarrow> round_half_even r \<le> b"
proof -
  assume h: "r \<le> of_int b"
  have f: "\<lfloor>r\<rfloor> \<le> b" using h by (simp add: floor_le_iff) 
  show ?thesis
  proof (cases "\<lfloor>r\<rfloor> = b")
    case True
    then have "r = of_int b" using h by (metis floor_le_iff le_floor_iff order_antisym of_int_floor_le order_refl)
    then show ?thesis by (simp add: round_half_even_def)
  next
    case False
    with f have "\<lfloor>r\<rfloor> + 1 \<le> b" by simp
    then show ?thesis unfolding round_half_even_def Let_def by auto
  qed
qed

lemma py_round_bounds:
  assumes "of_int a \<le> r" "r \<le> of_int b"
  shows "of_int a \<le> py_round r n \<and> py_round r n \<le> of_int b"
proof -
  have p: "(0::rat) < 10 ^ n" by simp
  have "of_int (a * 10 ^ n) \<le> r * 10 ^ n" using assms(1) p by simp
  then have l: "a * 10 ^ n \<le> round_half_even (r * 10 ^ n)" by (rule rhe_lower)
  have "r * 10 ^ n \<le> of_int (b * 10 ^ n)" using assms(2) p by simp
  then have u: "round_half_even (r * 10 ^ n) \<le> b * 10 ^ n" by (rule rhe_upper)
  have "(of_int (a * 10 ^ n) :: rat) \<le> of_int (round_half_even (r * 10 ^ n))"
    using l by (simp only: of_int_le_iff)
  then have 1: "of_int a \<le> py_round r n"
    using p by (simp add: py_round_def le_divide_eq)
  have "(of_int (round_half_even (r * 10 ^ n)) :: rat) \<le> of_int (b * 10 ^ n)"
    using u by (simp only: of_int_le_iff)
  then have 2: "py_round r n \<le> of_int b"
    using p by (simp add: py_round_def divide_le_eq)
  from 1 2 show ?thesis by simp
qed

lemma max_acc_mem: "max_acc f best xs \<in> set (best # xs)"
  by (induction xs arbitrary: best) auto

lemma max_acc_ge: "x \<in> set (best # xs) \<Longrightarrow> f x \<le> f (max_acc f best xs)"
proof (induction xs arbitrary: best x)
  case Nil then show ?case by simp
next
  case (Cons y ys)
  show ?case
  proof (cases "x \<in> set ys")
    case True
    then show ?thesis using Cons.IH[of x "if f best < f y then y else best"] by simp
  next
    case False
    have a: "f (if f best < f y then y else best) \<le> f (max_acc f (if f best < f y then y else best) ys)"
      using Cons.IH[of "if f best < f y then y else best" "if f best < f y then y else best"] by simp
    from False Cons.prems have "x = best \<or> x = y" by auto
    then have "f x \<le> f (if f best < f y then y else best)" by auto
    with a show ?thesis by simp
  qed
qed

lemma min_acc_mem: "min_acc f best xs \<in> set (best # xs)"
  by (induction xs arbitrary: best) auto

lemma min_acc_le: "x \<in> set (best # xs) \<Longrightarrow> f (min_acc f best xs) \<le> f x"
proof (induction xs arbitrary: best x)
  case Nil then show ?case by simp
next
  case (Cons y ys)
  let ?b = "if f y < f best then y else best"
  show ?case
  proof (cases "x \<in> set ys")
    case True
    then show ?thesis using Cons.IH[of x ?b] by simp
  next
    case False
    have a: "f (min_acc f ?b ys) \<le> f ?b"
      using Cons.IH[of ?b ?b] by simp
    from False Cons.prems have "x = best \<or> x = y" by auto
    then have "f ?b \<le> f x" by auto
    with a show ?thesis by simp
  qed
qed

lemma py_min_Inr:
  assumes "xs \<noteq> []"
  obtains m where "py_min f xs = Inr m" "m \<in> set xs" "\<forall>x \<in> set xs. f m \<le> f x"
proof -
  from assms obtain y ys where xs: "xs = y # ys" by (cases xs) simp_all
  have 1: "py_min f xs = Inr (min_acc f y ys)" using xs by simp
  have 2: "min_acc f y ys \<in> set xs" using min_acc_mem[of f y ys] xs by simp
  have 3: "\<forall>x \<in> set xs. f (min_acc f y ys) \<le> f x" using min_acc_le[of _ y ys f] xs by simp
  from 1 2 3 that show thesis by blast
qed

subsection \<open>Constructing an analysis result\<close>

lemma EmotionScore_init_ok:
  assumes "EmotionScore_init c f conf desc = Inr s"
  shows "emotion s = c \<and> 0 \<le> score s \<and> score s \<le> 100 \<and> (\<exists>i::int. score s = of_int i / 100)"
proof -
  from assms obtain r where f: "f = Finite r" and r: "0 \<le> r" "r \<le> 100" and s: "score s = py_round r 2" "emotion s = c"
    by (auto simp: EmotionScore_init_def split: pyfloat.splits if_splits option.splits)
  have "of_int 0 \<le> py_round r 2 \<and> py_round r 2 \<le> of_int 100"
    by (rule py_round_bounds) (use r in simp_all)
  moreover have "\<exists>i::int. py_round r 2 = of_int i / 100"
    by (auto simp: py_round_def)
  ultimately show ?thesis using s by simp
qed

lemma build_scores_ok:
  "build_scores p api cs = Inr items \<Longrightarrow>
     map fst items = cs \<and>
     (\<forall>(k, s) \<in> set items. emotion s = k \<and> 0 \<le> score s \<and> score s \<le> 100 \<and> (\<exists>i::int. score s = of_int i / 100))"
proof (induction cs arbitrary: items)
  case Nil then show ?case by simp
next
  case (Cons c cs)
  from Cons.prems obtain f s rest where
    s: "EmotionScore_init c f None None = Inr s" and
    rest: "build_scores p api cs = Inr rest" and items: "items = (c, s) # rest"
    by (auto split: sum.splits)
  from EmotionScore_init_ok[OF s] Cons.IH[OF rest] items show ?case by simp
qed

lemma get_dominant_is_argmax:
  assumes "get_dominant_emotion items = Inr k"
  shows "is_argmax items k"
proof -
  from assms obtain x xs where items: "items = x # xs"
    by (cases items) (auto simp: get_dominant_emotion_def)
  let ?f = "\<lambda>(k, s). score s"
  obtain k' s' where m: "max_acc ?f x xs = (k', s')" by (cases "max_acc ?f x xs")
  with assms items have k: "k' = k" by (simp add: get_dominant_emotion_def)
  have mem: "(k, s') \<in> set items" using max_acc_mem[of ?f x xs] m k items by simp
  have "\<forall>y \<in> set items. ?f y \<le> ?f (k, s')"
    using max_acc_ge[of _ x xs ?f] m k items by auto
  with mem show ?thesis unfolding is_argmax_def by fastforce
qed

lemma validate_confidence_ok:
  assumes "validate_confidence_score p v = Inr c"
  shows "0 \<le> c \<and> c \<le> 1 \<and> (\<exists>i::int. c = of_int i / 1000)"
proof -
  from assms obtain r where r: "0 \<le> r" "r \<le> 1" and c: "c = py_round r 3"
    by (auto simp: validate_confidence_score_def split: sum.splits pyfloat.splits if_splits)
  have "of_int 0 \<le> py_round r 3 \<and> py_round r 3 \<le> of_int 1"
    by (rule py_round_bounds) (use r in simp_all)
  moreover have "\<exists>i::int. py_round r 3 = of_int i / 1000"
    by (auto simp: py_round_def)
  ultimately show ?thesis using c by simp
qed

lemma init_ok:
  assumes "EmotionAnalysisResult_init p scores d conf summ pt now = Inr r"
  shows "emotion_scores r = scores \<and> set (map fst scores) = set all_categories \<and>
         get_dominant_emotion scores = Inr (dominant_emotion r) \<and>
         validate_confidence_score p conf = Inr (overall_confidence r)"
  using assms
  by (auto simp: EmotionAnalysisResult_init_def split: sum.splits if_splits)

text \<open>
  C1. Whenever \<^verbatim>\<open>from_api_response\<close> succeeds on a payload, the result holds the five
  categories happiness, sadness, anger, fear, love and no other; each score is between 0
  and 100 and a whole number of hundredths; the confidence is between 0 and 1 and a
  whole number of thousandths; and the dominant emotion is the one
  \<^verbatim>\<open>get_dominant_emotion\<close> computes from the scores, an argmax, whatever the payload
  claimed.
\<close>

theorem from_api_response_invariants:
  assumes "from_api_response str_to_float api ptime now = Inr r"
  shows "map fst (emotion_scores r) = [HAPPINESS, SADNESS, ANGER, FEAR, LOVE] \<and>
         (\<forall>(k, s) \<in> set (emotion_scores r).
            emotion s = k \<and> 0 \<le> score s \<and> score s \<le> 100 \<and> (\<exists>i::int. score s = of_int i / 100)) \<and>
         0 \<le> overall_confidence r \<and> overall_confidence r \<le> 1 \<and>
         (\<exists>i::int. overall_confidence r = of_int i / 1000) \<and>
         get_dominant_emotion (emotion_scores r) = Inr (dominant_emotion r) \<and>
         is_argmax (emotion_scores r) (dominant_emotion r)"
proof -
  from assms obtain scores d where
    b: "build_scores str_to_float api all_categories = Inr scores" and
    i: "EmotionAnalysisResult_init str_to_float scores d
          (dict_get api ''confidence'' (PNum 0)) (dict_get api ''summary'' PNone) ptime now = Inr r"
    by (auto simp: from_api_response_def split: sum.splits pyval.splits option.splits)
  note bs = build_scores_ok[OF b]
  note io = init_ok[OF i]
  from io have es: "emotion_scores r = scores" by simp
  from io have gd: "get_dominant_emotion scores = Inr (dominant_emotion r)" by simp
  from io have vc: "validate_confidence_score str_to_float (dict_get api ''confidence'' (PNum 0)) = Inr (overall_confidence r)" by simp
  note c = validate_confidence_ok[OF vc]
  note am = get_dominant_is_argmax[OF gd]
  from bs have keys: "map fst scores = [HAPPINESS, SADNESS, ANGER, FEAR, LOVE]"
    by (simp add: all_categories_def)
  show ?thesis using es keys bs c gd am by simp
qed

text \<open>
  The payload \<open>ex_payload\<close> claims sadness (2.665) as dominant; construction succeeds,
  the scores are rounded as \<^verbatim>\<open>round\<close> rounds their doubles (2.665 to 2.67, 2.625 to
  2.62, the confidence 0.87654 to 0.877), and the result names happiness (80).
\<close>

theorem from_api_response_invariants_witness:
  "from_api_response (\<lambda>s. None) ex_payload None 0 = Inr ex_result \<and>
   map (\<lambda>(k, s). score s) (emotion_scores ex_result) = [80, 267 / 100, 131 / 50, 5, 0] \<and>
   overall_confidence ex_result = 877 / 1000 \<and>
   dominant_emotion ex_result = HAPPINESS \<and>
   is_argmax (emotion_scores ex_result) (dominant_emotion ex_result)"
proof -
  have h: "from_api_response (\<lambda>s. None) ex_payload None 0 = Inr ex_result"
    by code_simp
  have d: "dominant_emotion ex_result = HAPPINESS"
    by (simp add: ex_result_def)
  have v: "map (\<lambda>(k, s). score s) (emotion_scores ex_result) = [80, 267 / 100, 131 / 50, 5, 0]"
    "overall_confidence ex_result = 877 / 1000"
    by (simp_all add: ex_result_def)
  from from_api_response_invariants [OF h] h d v show ?thesis by simp
qed

subsection \<open>The fallback payload\<close>

lemma contains_iff: "contains sub s \<longleftrightarrow> (\<exists>pre post. s = pre @ sub @ post)"
proof (induction s)
  case Nil
  then show ?case by auto
next
  case (Cons c cs)
  show ?case
  proof
    assume "contains sub (c # cs)"
    then consider "take (length sub) (c # cs) = sub" | "contains sub cs" by auto
    then show "\<exists>pre post. c # cs = pre @ sub @ post"
    proof cases
      case 1
      then have "c # cs = [] @ sub @ drop (length sub) (c # cs)"
        by (metis append_Nil append_take_drop_id)
      then show ?thesis by blast
    next
      case 2
      with Cons.IH obtain pre post where "cs = pre @ sub @ post" by blast
      then have "c # cs = (c # pre) @ sub @ post" by simp
      then show ?thesis by blast
    qed
  next
    assume "\<exists>pre post. c # cs = pre @ sub @ post"
    then obtain pre post where e: "c # cs = pre @ sub @ post" by blast
    show "contains sub (c # cs)"
    proof (cases pre)
      case Nil
      with e have "take (length sub) (c # cs) = sub" by simp
      then show ?thesis by simp
    next
      case (Cons p ps)
      with e have "cs = ps @ sub @ post" by simp
      with Cons.IH have "contains sub cs" by blast
      then show ?thesis by simp
    qed
  qed
qed

lemma any_word_in_iff:
  "any_word_in ws t \<longleftrightarrow> (\<exists>w \<in> set ws. \<exists>pre post. t = pre @ w @ post)"
  by (simp add: any_word_in_def list_ex_iff contains_iff)

lemma fallback_items:
  "[(''happiness'', keyword_score raw HAPPINESS), (''sadness'', keyword_score raw SADNESS),
    (''anger'', keyword_score raw ANGER), (''fear'', keyword_score raw FEAR),
    (''love'', keyword_score raw LOVE)] = map (\<lambda>c. (category_value c, keyword_score raw c)) all_categories"
  by (simp add: all_categories_def)

lemma set_all_categories: "set all_categories = UNIV"
proof -
  have "c \<in> set all_categories" for c by (cases c) (simp_all add: all_categories_def)
  then show ?thesis by auto
qed

lemma fallback_dominant:
  "\<exists>c. dominant_key (map (\<lambda>c. (category_value c, keyword_score raw c)) all_categories) = Inr (category_value c) \<and>
       (\<forall>c'. keyword_score raw c' \<le> keyword_score raw c)"
proof -
  let ?items = "map (\<lambda>c. (category_value c, keyword_score raw c)) all_categories"
  obtain x xs where items: "?items = x # xs" by (simp add: all_categories_def)
  obtain k v where m: "max_acc snd x xs = (k, v)" by (cases "max_acc snd x xs")
  have d: "dominant_key ?items = Inr k"
    unfolding items dominant_key_def using m by simp
  have "(k, v) \<in> set ?items" using max_acc_mem [of snd x xs] m items by simp
  then obtain c where c: "k = category_value c" "v = keyword_score raw c" by auto
  have "keyword_score raw c' \<le> keyword_score raw c" for c'
  proof -
    have "(category_value c', keyword_score raw c') \<in> set (x # xs)"
      using items [symmetric] set_all_categories by auto
    from max_acc_ge [OF this, of snd] m c show ?thesis by simp
  qed
  with d c show ?thesis by blast
qed

lemma fallback_payload:
  "\<exists>p c. create_fallback_response raw = Inr p \<and>
      (\<forall>c'. p (category_value c') = Some (PNum (keyword_score raw c'))) \<and>
      (\<forall>c'. keyword_score raw c' \<le> keyword_score raw c) \<and>
      p ''dominant_emotion'' = Some (PStr (category_value c)) \<and>
      p ''confidence'' = Some (PNum (6 / 10)) \<and>
      p ''summary'' =
        Some (PStr (''Analysis completed using fallback method. Dominant emotion detected: ''
                    @ category_value c)) \<and>
      (any_word_in (trigger_words LOVE) (lower raw) \<and>
       (\<forall>c'. c' \<noteq> LOVE \<longrightarrow> \<not> any_word_in (trigger_words c') (lower raw))
         \<longrightarrow> c = LOVE \<and> p ''love'' = Some (PNum 50) \<and> p ''happiness'' = Some (PNum 20) \<and>
             p ''sadness'' = Some (PNum 20) \<and> p ''anger'' = Some (PNum 20) \<and>
             p ''fear'' = Some (PNum 20))"
proof -
  obtain c where dom: "dominant_key (map (\<lambda>c. (category_value c, keyword_score raw c)) all_categories)
      = Inr (category_value c)" and mx: "\<forall>c'. keyword_score raw c' \<le> keyword_score raw c"
    using fallback_dominant by blast
  define d where "d = category_value c"
  define p :: payload where "p =
    [''happiness'' \<mapsto> PNum (keyword_score raw HAPPINESS),
     ''sadness'' \<mapsto> PNum (keyword_score raw SADNESS),
     ''anger'' \<mapsto> PNum (keyword_score raw ANGER),
     ''fear'' \<mapsto> PNum (keyword_score raw FEAR),
     ''love'' \<mapsto> PNum (keyword_score raw LOVE),
     ''dominant_emotion'' \<mapsto> PStr d,
     ''confidence'' \<mapsto> PNum (6 / 10),
     ''summary'' \<mapsto> PStr (''Analysis completed using fallback method. Dominant emotion detected: '' @ d)]"
  have dk: "dominant_key [(''happiness'', keyword_score raw HAPPINESS), (''sadness'', keyword_score raw SADNESS),
    (''anger'', keyword_score raw ANGER), (''fear'', keyword_score raw FEAR),
    (''love'', keyword_score raw LOVE)] = Inr d"
    using dom unfolding d_def fallback_items by simp
  have r: "create_fallback_response raw = Inr p"
    unfolding create_fallback_response_def Let_def keyword_score_def [symmetric]
    by (simp only: dk p_def sum.case)
  have sc: "p (category_value c') = Some (PNum (keyword_score raw c'))" for c'
    by (cases c') (simp_all add: p_def)
  have pd: "p ''dominant_emotion'' = Some (PStr (category_value c))"
    by (simp add: p_def d_def)
  have pc: "p ''confidence'' = Some (PNum (6 / 10))"
    by (simp add: p_def)
  have ps: "p ''summary'' =
        Some (PStr (''Analysis completed using fallback method. Dominant emotion detected: ''
                    @ category_value c))"
    by (simp add: p_def d_def)
  have love: "any_word_in (trigger_words LOVE) (lower raw) \<and>
       (\<forall>c'. c' \<noteq> LOVE \<longrightarrow> \<not> any_word_in (trigger_words c') (lower raw))
         \<longrightarrow> c = LOVE \<and> p ''love'' = Some (PNum 50) \<and> p ''happiness'' = Some (PNum 20) \<and>
             p ''sadness'' = Some (PNum 20) \<and> p ''anger'' = Some (PNum 20) \<and>
             p ''fear'' = Some (PNum 20)"
  proof
    assume h: "any_word_in (trigger_words LOVE) (lower raw) \<and>
       (\<forall>c'. c' \<noteq> LOVE \<longrightarrow> \<not> any_word_in (trigger_words c') (lower raw))"
    then have l: "keyword_score raw LOVE = 50" by (simp add: keyword_score_def)
    from h have o: "c' \<noteq> LOVE \<Longrightarrow> keyword_score raw c' = 20" for c'
      by (simp add: keyword_score_def)
    have "c = LOVE"
    proof (rule ccontr)
      assume "c \<noteq> LOVE"
      then have "keyword_score raw c = 20" by (rule o)
      moreover from mx have "keyword_score raw LOVE \<le> keyword_score raw c" by blast
      ultimately show False using l by simp
    qed
    moreover have "p ''love'' = Some (PNum 50)" using sc [of LOVE] l by simp
    moreover have "p ''happiness'' = Some (PNum 20)" using sc [of HAPPINESS] o [of HAPPINESS] by simp
    moreover have "p ''sadness'' = Some (PNum 20)" using sc [of SADNESS] o [of SADNESS] by simp
    moreover have "p ''anger'' = Some (PNum 20)" using sc [of ANGER] o [of ANGER] by simp
    moreover have "p ''fear'' = Some (PNum 20)" using sc [of FEAR] o [of FEAR] by simp
    ultimately show "c = LOVE \<and> p ''love'' = Some (PNum 50) \<and> p ''happiness'' = Some (PNum 20) \<and>
             p ''sadness'' = Some (PNum 20) \<and> p ''anger'' = Some (PNum 20) \<and>
             p ''fear'' = Some (PNum 20)" by blast
  qed
  show ?thesis
    using r sc mx pd pc ps love by blast
qed

text \<open>
  C2, as the code has it. The fallback payload gives each of the five categories the
  baseline 20, and 50 exactly when the lower-cased text contains one of the category's
  keywords as a substring (a run of consecutive characters, inside a longer word or
  not). Its dominant emotion is a category of highest score, its confidence is 0.6 and
  its summary is the fixed sentence followed by the dominant emotion. When only the
  keywords of love occur, the scores are 20, 20, 20, 20 and 50 and the dominant emotion
  is love. A response whose content is not empty and yields no JSON object, or one that
  fails to parse before and after repair, is answered with the fallback payload of the
  stripped content.
\<close>

theorem fallback_response_scores:
  "(\<exists>p c. create_fallback_response raw = Inr p \<and>
      (\<forall>c'. p (category_value c') = Some (PNum (keyword_score raw c'))) \<and>
      (\<forall>c'. keyword_score raw c' \<le> keyword_score raw c) \<and>
      p ''dominant_emotion'' = Some (PStr (category_value c)) \<and>
      p ''confidence'' = Some (PNum (6 / 10)) \<and>
      p ''summary'' =
        Some (PStr (''Analysis completed using fallback method. Dominant emotion detected: ''
                    @ category_value c)) \<and>
      (any_word_in (trigger_words LOVE) (lower raw) \<and>
       (\<forall>c'. c' \<noteq> LOVE \<longrightarrow> \<not> any_word_in (trigger_words c') (lower raw))
         \<longrightarrow> c = LOVE \<and> p ''love'' = Some (PNum 50) \<and> p ''happiness'' = Some (PNum 20) \<and>
             p ''sadness'' = Some (PNum 20) \<and> p ''anger'' = Some (PNum 20) \<and>
             p ''fear'' = Some (PNum 20))) \<and>
   (\<forall>c'. keyword_score raw c' =
      (if \<exists>w \<in> set (trigger_words c'). \<exists>pre post. lower raw = pre @ w @ post then 50 else 20)) \<and>
   (s \<noteq> [] \<and>
    (find_json (strip s) = None \<or>
     (\<exists>j. find_json (strip s) = Some j \<and> json_loads env j = None \<and>
          json_loads env (fix_json_format (re_sub env) j) = None))
      \<longrightarrow> parse_analysis_response env (PStr s # others) = create_fallback_response (strip s))"
proof -
  have part2: "\<forall>c'. keyword_score raw c' =
      (if \<exists>w \<in> set (trigger_words c'). \<exists>pre post. lower raw = pre @ w @ post then 50 else 20)"
    by (simp add: keyword_score_def any_word_in_iff)
  have part3: "s \<noteq> [] \<and>
    (find_json (strip s) = None \<or>
     (\<exists>j. find_json (strip s) = Some j \<and> json_loads env j = None \<and>
          json_loads env (fix_json_format (re_sub env) j) = None))
      \<longrightarrow> parse_analysis_response env (PStr s # others) = create_fallback_response (strip s)"
  proof
    assume h: "s \<noteq> [] \<and>
    (find_json (strip s) = None \<or>
     (\<exists>j. find_json (strip s) = Some j \<and> json_loads env j = None \<and>
          json_loads env (fix_json_format (re_sub env) j) = None))"
    obtain q where q: "create_fallback_response (strip s) = Inr q"
      using fallback_payload [of "strip s"] by blast
    show "parse_analysis_response env (PStr s # others) = create_fallback_response (strip s)"
      using h q by (auto simp: parse_analysis_response_def Let_def)
  qed
  from fallback_payload [of raw] part2 part3 show ?thesis by blast
qed

theorem fallback_response_scores_witness:
  "(\<exists>p. create_fallback_response ''I Love you'' = Inr p \<and>
        p ''happiness'' = Some (PNum 20) \<and> p ''sadness'' = Some (PNum 20) \<and>
        p ''anger'' = Some (PNum 20) \<and> p ''fear'' = Some (PNum 20) \<and>
        p ''love'' = Some (PNum 50) \<and> p ''dominant_emotion'' = Some (PStr ''love'') \<and>
        p ''confidence'' = Some (PNum (6 / 10))) \<and>
   parse_analysis_response (ex_groq_env []) [PStr '' I Love you ''] =
     create_fallback_response ''I Love you''"
proof -
  have l: "any_word_in (trigger_words LOVE) (lower ''I Love you'')" by code_simp
  have n1: "\<not> any_word_in (trigger_words HAPPINESS) (lower ''I Love you'')" by code_simp
  have n2: "\<not> any_word_in (trigger_words SADNESS) (lower ''I Love you'')" by code_simp
  have n3: "\<not> any_word_in (trigger_words ANGER) (lower ''I Love you'')" by code_simp
  have n4: "\<not> any_word_in (trigger_words FEAR) (lower ''I Love you'')" by code_simp
  have others: "\<forall>c'. c' \<noteq> LOVE \<longrightarrow> \<not> any_word_in (trigger_words c') (lower ''I Love you'')"
  proof (intro allI impI)
    fix c' :: EmotionCategory
    assume "c' \<noteq> LOVE"
    then show "\<not> any_word_in (trigger_words c') (lower ''I Love you'')"
      using n1 n2 n3 n4 by (cases c') simp_all
  qed
  have st: "strip '' I Love you '' = ''I Love you''" by code_simp
  have nj: "find_json (strip '' I Love you '') = None" by code_simp
  have ne: "'' I Love you '' \<noteq> []" by simp
  note t = fallback_response_scores [of "''I Love you''" "'' I Love you ''" "ex_groq_env []" "[]"]
  from t l others obtain p where
    p: "create_fallback_response ''I Love you'' = Inr p"
       "p ''happiness'' = Some (PNum 20)" "p ''sadness'' = Some (PNum 20)"
       "p ''anger'' = Some (PNum 20)" "p ''fear'' = Some (PNum 20)"
       "p ''love'' = Some (PNum 50)" "p ''dominant_emotion'' = Some (PStr (category_value LOVE))"
       "p ''confidence'' = Some (PNum (6 / 10))"
    by blast
  from t ne nj have
    "parse_analysis_response (ex_groq_env []) [PStr '' I Love you ''] =
       create_fallback_response (strip '' I Love you '')"
    by blast
  with st p show ?thesis by simp
qed

text \<open>
  C2, as stated, fails: keywords are not matched as whole tokens. The text "glove" has no
  keyword of love among its tokens and love scores 50; the text "love made" has the
  token "love" and no other keyword as a token, and yet anger scores 50 and is the
  dominant emotion, since "made" contains "mad".
\<close>

theorem fallback_whole_token_counterexample:
  "\<not> token_hit (trigger_words LOVE) ''glove'' \<and>
   fallback_field ''glove'' ''love'' = Some (PNum 50) \<and>
   token_hit (trigger_words LOVE) ''love made'' \<and>
   \<not> token_hit (trigger_words HAPPINESS) ''love made'' \<and>
   \<not> token_hit (trigger_words SADNESS) ''love made'' \<and>
   \<not> token_hit (trigger_words ANGER) ''love made'' \<and>
   \<not> token_hit (trigger_words FEAR) ''love made'' \<and>
   fallback_field ''love made'' ''anger'' = Some (PNum 50) \<and>
   fallback_field ''love made'' ''dominant_emotion'' = Some (PStr ''anger'')"
  by code_simp

subsection \<open>Errors of the analysis\<close>















subsection \<open>Scraping the lyrics\<close>

lemma joined_snoc: "joined (ts @ [t]) = joined ts @ (if accepted t then t @ newline else [])"
  by (simp add: joined_def)

lemma process_container_joined:
  "process_container c (fst st, acc @ joined (snd st)) =
     (fst (container_text c st), acc @ joined (snd (container_text c st)))"
  by (simp add: process_container_def container_text_def Let_def joined_snoc accepted_def)

lemma fold_process_container_joined:
  "fold process_container cs (fst st, acc @ joined (snd st)) =
     (fst (fold container_text cs st), acc @ joined (snd (fold container_text cs st)))"
proof (induction cs arbitrary: st)
  case Nil
  then show ?case by simp
next
  case (Cons c cs)
  have "fold process_container (c # cs) (fst st, acc @ joined (snd st)) =
          fold process_container cs (process_container c (fst st, acc @ joined (snd st)))"
    by simp
  also have "\<dots> = fold process_container cs
               (fst (container_text c st), acc @ joined (snd (container_text c st)))"
    by (simp only: process_container_joined)
  also have "\<dots> = (fst (fold container_text cs (container_text c st)),
                      acc @ joined (snd (fold container_text cs (container_text c st))))"
    by (rule Cons.IH)
  finally show ?case by simp
qed

lemma process_selector_joined:
  "process_selector sel (fst st, acc @ joined (snd st)) =
     (fst (selector_texts sel st), acc @ joined (snd (selector_texts sel st)))"
  unfolding process_selector_def selector_texts_def
  using fold_process_container_joined [of "select (fst st) sel" st acc] by simp

lemma fold_process_selector_joined:
  "fold process_selector sels (fst st, acc @ joined (snd st)) =
     (fst (fold selector_texts sels st), acc @ joined (snd (fold selector_texts sels st)))"
proof (induction sels arbitrary: st)
  case Nil
  then show ?case by simp
next
  case (Cons sel sels)
  have "fold process_selector (sel # sels) (fst st, acc @ joined (snd st)) =
          fold process_selector sels (process_selector sel (fst st, acc @ joined (snd st)))"
    by simp
  also have "\<dots> = fold process_selector sels
               (fst (selector_texts sel st), acc @ joined (snd (selector_texts sel st)))"
    by (simp only: process_selector_joined)
  also have "\<dots> = (fst (fold selector_texts sels (selector_texts sel st)),
                      acc @ joined (snd (fold selector_texts sels (selector_texts sel st))))"
    by (rule Cons.IH)
  finally show ?case by simp
qed

lemma selectors_text_joined:
  "snd (fold process_selector lyrics_selectors (soup, [])) = joined (candidate_texts soup)"
  using fold_process_selector_joined [of lyrics_selectors "(soup, [])" "[]"]
  by (simp add: candidate_texts_def joined_def)

lemma joined_empty_iff: "joined ts = [] \<longleftrightarrow> filter accepted ts = []"
proof
  assume "joined ts = []"
  then have "\<forall>t \<in> set (filter accepted ts). t @ newline = []"
    by (auto simp: joined_def)
  then have "set (filter accepted ts) = {}"
    by (auto simp: newline_def)
  then show "filter accepted ts = []" by simp
next
  assume "filter accepted ts = []"
  then show "joined ts = []" by (simp add: joined_def)
qed

lemma decompose_same [simp]:
  "node_id (decompose i d) = node_id d" "matches sel (decompose i d) = matches sel d"
  by (cases d; cases sel; simp)+

lemma fold_decompose_same [simp]:
  "node_id (fold decompose ids d) = node_id d"
  "matches sel (fold decompose ids d) = matches sel d"
  by (induction ids arbitrary: d) simp_all

lemma descendants_decompose:
  "d' \<in> set (descendants (decompose i n)) \<Longrightarrow>
     \<exists>d \<in> set (descendants n). d' = decompose i d \<and> node_id d \<noteq> Some i"
proof (induction n arbitrary: d')
  case (Text s)
  then show ?case by simp
next
  case (Element j tag attrs children)
  from Element.prems obtain c where c: "c \<in> set children" "node_id c \<noteq> Some i"
    and d': "d' = decompose i c \<or> d' \<in> set (descendants (decompose i c))"
    by auto
  from d' show ?case
  proof
    assume "d' = decompose i c"
    with c show ?thesis by auto
  next
    assume "d' \<in> set (descendants (decompose i c))"
    from Element.IH [OF c(1) this] obtain d where
      "d \<in> set (descendants c)" "d' = decompose i d" "node_id d \<noteq> Some i" by blast
    with c show ?thesis by auto
  qed
qed

lemma descendants_fold_decompose:
  "d' \<in> set (descendants (fold decompose ids n)) \<Longrightarrow>
     \<exists>d \<in> set (descendants n). d' = fold decompose ids d \<and> (\<forall>i \<in> set ids. node_id d \<noteq> Some i)"
proof (induction ids arbitrary: n d')
  case Nil
  then show ?case by simp
next
  case (Cons i ids)
  from Cons.prems have "d' \<in> set (descendants (fold decompose ids (decompose i n)))" by simp
  from Cons.IH [OF this] obtain d1 where d1: "d1 \<in> set (descendants (decompose i n))"
    "d' = fold decompose ids d1" "\<forall>k \<in> set ids. node_id d1 \<noteq> Some k" by blast
  from descendants_decompose [OF d1(1)] obtain d where d: "d \<in> set (descendants n)"
    "d1 = decompose i d" "node_id d \<noteq> Some i" by blast
  from d1 d have "d' = fold decompose (i # ids) d \<and> (\<forall>k \<in> set (i # ids). node_id d \<noteq> Some k)"
    by simp
  with d(1) show ?case by blast
qed

lemma find_node_Some:
  "find_node c soup = Some n \<Longrightarrow> n \<in> set (descendants soup) \<and> node_id n = Some c"
  unfolding find_node_def by (auto simp: find_Some_iff)

lemma distinct_ids_unique:
  "distinct (List.map_filter f xs) \<Longrightarrow> x \<in> set xs \<Longrightarrow> y \<in> set xs \<Longrightarrow>
     f x = Some c \<Longrightarrow> f y = Some c \<Longrightarrow> x = y"
proof (induction xs)
  case Nil
  then show ?case by simp
next
  case (Cons a xs)
  show ?case
  proof (cases "f a")
    case None
    with Cons show ?thesis by (auto simp: List.map_filter_simps)
  next
    case (Some v)
    with Cons.prems have dist: "v \<notin> set (List.map_filter f xs)" "distinct (List.map_filter f xs)"
      by (simp_all add: List.map_filter_simps)
    have mem: "z \<in> set xs \<Longrightarrow> f z = Some c \<Longrightarrow> c \<in> set (List.map_filter f xs)" for z
      by (force simp: List.map_filter_def)
    from Cons.prems Some dist mem Cons.IH show ?thesis by auto
  qed
qed

lemma select_ids:
  "d \<in> set (descendants n) \<Longrightarrow> list_ex (\<lambda>sel. matches sel d) sels \<Longrightarrow> node_id d = Some k \<Longrightarrow>
     k \<in> set (select n sels)"
  by (force simp: select_def select_nodes_def List.map_filter_def)

lemma matches_has_id: "matches sel d \<Longrightarrow> \<exists>k. node_id d = Some k"
  by (cases d) simp_all

lemma strip_unwanted_clean:
  assumes "distinct (List.map_filter node_id (descendants soup))"
  shows "select_in (strip_unwanted c soup) c unwanted_selector = []"
proof (cases "find_node c soup")
  case None
  then show ?thesis by (simp add: strip_unwanted_def select_in_def)
next
  case (Some n)
  let ?ids = "select n unwanted_selector"
  have su: "strip_unwanted c soup = fold decompose ?ids soup"
    using Some by (simp add: strip_unwanted_def select_in_def)
  show ?thesis
  proof (cases "find_node c (fold decompose ?ids soup)")
    case None
    then show ?thesis by (simp add: su select_in_def)
  next
    case (Some n')
    from find_node_Some [OF Some] have n': "n' \<in> set (descendants (fold decompose ?ids soup))"
      "node_id n' = Some c" by simp_all
    from descendants_fold_decompose [OF n'(1)] obtain n0 where n0: "n0 \<in> set (descendants soup)"
      "n' = fold decompose ?ids n0" by blast
    from n0 n'(2) have "node_id n0 = Some c" by simp
    with find_node_Some [OF \<open>find_node c soup = Some n\<close>] n0(1) assms have "n0 = n"
      using distinct_ids_unique [of node_id "descendants soup" n0 n c] by blast
    with n0 have n'_eq: "n' = fold decompose ?ids n" by simp
    have "select_nodes n' unwanted_selector = []"
    proof (rule ccontr)
      assume "select_nodes n' unwanted_selector \<noteq> []"
      then obtain d' where d': "d' \<in> set (descendants n')"
        "list_ex (\<lambda>sel. matches sel d') unwanted_selector"
        by (auto simp: select_nodes_def filter_empty_conv)
      from descendants_fold_decompose [of d' ?ids n] d'(1) n'_eq obtain d where
        d: "d \<in> set (descendants n)" "d' = fold decompose ?ids d" "\<forall>i \<in> set ?ids. node_id d \<noteq> Some i"
        by blast
      from d'(2) d(2) have m: "list_ex (\<lambda>sel. matches sel d) unwanted_selector"
        by (simp add: list_ex_iff)
      then obtain k where k: "node_id d = Some k"
        using matches_has_id by (auto simp: list_ex_iff)
      from select_ids [OF d(1) m k] d(3) k show False by blast
    qed
    then show ?thesis using Some by (simp add: su select_in_def select_def List.map_filter_simps)
  qed
qed

text \<open>
  C4, as the code has it. \<^verbatim>\<open>scrape_lyrics\<close> goes through the selectors in their order
  and through the containers of each in document order, decomposes the advertisement,
  script and style nodes below a container before reading its text (on a page whose
  elements are distinct, none is left below it), and appends every
  text of more than 50 characters, with a line break, to \<^verbatim>\<open>lyrics_text\<close>: what reaches
  the cleaning is the concatenation of all accepted candidates, not the first one alone.
  The call fails with \<^verbatim>\<open>LyricsNotFoundError\<close> when the cleaned text has fewer than 20
  characters, and a text it returns is the cleaned text, of at least 20 characters.
\<close>

theorem scrape_lyrics_text:
  "snd (fold process_selector lyrics_selectors (soup, [])) =
     concat (map (\<lambda>text. text @ newline) (filter accepted (candidate_texts soup))) \<and>
   (filter accepted (candidate_texts soup) \<noteq> [] \<longrightarrow>
      collect_lyrics_text soup =
        concat (map (\<lambda>text. text @ newline) (filter accepted (candidate_texts soup)))) \<and>
   (accepted t \<longleftrightarrow> t \<noteq> [] \<and> 50 < length t) \<and>
   container_text c (soup, ts) =
     (strip_unwanted c soup, ts @ [get_text_of (strip_unwanted c soup) c newline]) \<and>
   (distinct (List.map_filter node_id (descendants soup)) \<longrightarrow>
      select_in (strip_unwanted c soup) c unwanted_selector = []) \<and>
   (page_url \<noteq> None \<and> page_url \<noteq> Some [] \<and>
    length (strip (clean_lyrics subst (collect_lyrics_text soup))) < 20
      \<longrightarrow> scrape_lyrics subst page_url (Inr soup) = Inl LyricsNotFoundError) \<and>
   (scrape_lyrics subst page_url (Inr soup) = Inr res
      \<longrightarrow> res = clean_lyrics subst (collect_lyrics_text soup) \<and> 20 \<le> length (strip res))"
proof -
  have a: "snd (fold process_selector lyrics_selectors (soup, [])) =
     concat (map (\<lambda>text. text @ newline) (filter accepted (candidate_texts soup)))"
    using selectors_text_joined [of soup] by (simp add: joined_def)
  have b: "filter accepted (candidate_texts soup) \<noteq> [] \<longrightarrow>
      collect_lyrics_text soup =
        concat (map (\<lambda>text. text @ newline) (filter accepted (candidate_texts soup)))"
  proof
    assume "filter accepted (candidate_texts soup) \<noteq> []"
    then have "joined (candidate_texts soup) \<noteq> []" by (simp add: joined_empty_iff)
    then have "snd (fold process_selector lyrics_selectors (soup, [])) \<noteq> []"
      by (simp add: selectors_text_joined)
    then have "collect_lyrics_text soup = snd (fold process_selector lyrics_selectors (soup, []))"
      by (simp add: collect_lyrics_text_def Let_def)
    with a show "collect_lyrics_text soup =
        concat (map (\<lambda>text. text @ newline) (filter accepted (candidate_texts soup)))"
      by simp
  qed
  have c: "accepted t \<longleftrightarrow> t \<noteq> [] \<and> 50 < length t"
    by (simp add: accepted_def)
  have d: "page_url \<noteq> None \<and> page_url \<noteq> Some [] \<and>
    length (strip (clean_lyrics subst (collect_lyrics_text soup))) < 20
      \<longrightarrow> scrape_lyrics subst page_url (Inr soup) = Inl LyricsNotFoundError"
    by (simp add: scrape_lyrics_def Let_def)
  have e: "scrape_lyrics subst page_url (Inr soup) = Inr res
      \<longrightarrow> res = clean_lyrics subst (collect_lyrics_text soup) \<and> 20 \<le> length (strip res)"
    by (auto simp: scrape_lyrics_def Let_def split: if_splits)
  have f: "container_text c (soup, ts) =
     (strip_unwanted c soup, ts @ [get_text_of (strip_unwanted c soup) c newline])"
    by (simp add: container_text_def Let_def)
  have g: "distinct (List.map_filter node_id (descendants soup)) \<longrightarrow>
      select_in (strip_unwanted c soup) c unwanted_selector = []"
    using strip_unwanted_clean by blast
  from a b c d e f g show ?thesis by blast
qed

theorem scrape_lyrics_text_witness:
  "distinct (List.map_filter node_id (descendants ex_page_ad)) \<and>
   select_in ex_page_ad 2 unwanted_selector = [3, 5] \<and>
   select_in (strip_unwanted 2 ex_page_ad) 2 unwanted_selector = [] \<and>
   filter accepted (candidate_texts ex_page_ad) \<noteq> [] \<and>
   collect_lyrics_text ex_page_ad =
     ''[Verse 1]'' @ newline @ verse_a @ newline @ verse_b @ newline \<and>
   scrape_lyrics (\<lambda>pat s. s) (Some ''https://genius.com/x'') (Inr ex_page_ad) =
     Inr (''[Verse 1]'' @ newline @ verse_a @ newline @ verse_b) \<and>
   scrape_lyrics (\<lambda>pat s. []) (Some ''https://genius.com/x'') (Inr ex_page_ad) =
     Inl LyricsNotFoundError"
proof -
  have ids: "distinct (List.map_filter node_id (descendants ex_page_ad))" by code_simp
  have before: "select_in ex_page_ad 2 unwanted_selector = [3, 5]" by code_simp
  have after: "select_in (strip_unwanted 2 ex_page_ad) 2 unwanted_selector = []"
    using scrape_lyrics_text [where soup = ex_page_ad and c = 2] ids by blast
  have ne: "filter accepted (candidate_texts ex_page_ad) \<noteq> []" by code_simp
  have v: "concat (map (\<lambda>text. text @ newline) (filter accepted (candidate_texts ex_page_ad))) =
             ''[Verse 1]'' @ newline @ verse_a @ newline @ verse_b @ newline"
    by code_simp
  have u: "Some ''https://genius.com/x'' \<noteq> None \<and> Some ''https://genius.com/x'' \<noteq> Some []"
    by simp
  have short: "length (strip (clean_lyrics (\<lambda>pat s. []) (collect_lyrics_text ex_page_ad))) < 20"
    by (simp add: clean_lyrics_def strip_def)
  have ok: "scrape_lyrics (\<lambda>pat s. s) (Some ''https://genius.com/x'') (Inr ex_page_ad) =
     Inr (''[Verse 1]'' @ newline @ verse_a @ newline @ verse_b)"
    by code_simp
  have 1: "collect_lyrics_text ex_page_ad =
     ''[Verse 1]'' @ newline @ verse_a @ newline @ verse_b @ newline"
    using scrape_lyrics_text [where soup = ex_page_ad] ne v by simp
  have 2: "scrape_lyrics (\<lambda>pat s. []) (Some ''https://genius.com/x'') (Inr ex_page_ad) =
     Inl LyricsNotFoundError"
    using scrape_lyrics_text [where soup = ex_page_ad and page_url = "Some ''https://genius.com/x''"
            and subst = "\<lambda>pat s. []"] u short
    by blast
  have 3: "''[Verse 1]'' @ newline @ verse_a @ newline @ verse_b
             = clean_lyrics (\<lambda>pat s. s) (collect_lyrics_text ex_page_ad) \<and>
           20 \<le> length (strip (''[Verse 1]'' @ newline @ verse_a @ newline @ verse_b))"
    using scrape_lyrics_text [where soup = ex_page_ad and page_url = "Some ''https://genius.com/x''"
            and subst = "\<lambda>pat s. s"
            and res = "''[Verse 1]'' @ newline @ verse_a @ newline @ verse_b"] ok
    by blast
  from ids before after ne 1 2 ok show ?thesis by blast
qed

text \<open>
  C4, as stated, fails: on a page with two lyrics containers of 56 and 55 characters, the
  first accepted candidate is the first verse, and the text carried on is both verses.
\<close>

theorem first_candidate_only_counterexample:
  "first_accepted ex_page = Some verse_a \<and>
   collect_lyrics_text ex_page = verse_a @ newline @ verse_b @ newline \<and>
   collect_lyrics_text ex_page \<noteq> verse_a \<and>
   collect_lyrics_text ex_page \<noteq> verse_a @ newline"
  by code_simp

subsection \<open>Session states\<close>

lemma run_session_ops_append:
  "run_session_ops (xs @ ys) s = run_session_ops ys (run_session_ops xs s)"
  by (induction xs arbitrary: s) auto

lemma apply_session_op_status: "status (apply_session_op x s) = op_status x"
  by (cases x) (simp_all add: mark_completed_def mark_failed_def mark_cached_def)

lemma terminal_op_status: "terminal (op_status x)"
  by (cases x) (simp_all add: terminal_def)

text \<open>
  C5, as the code has it. The three operations do not look at the current status. A
  session in a terminal state stays among the terminal states under any sequence of
  them, and after a non-empty sequence its status is that of the last operation:
  \<^verbatim>\<open>mark_completed\<close> and \<^verbatim>\<open>mark_cached\<close> leave their result and no error message,
  \<^verbatim>\<open>mark_failed\<close> leaves its error message and no result.
\<close>

theorem session_ops_end_terminal:
  "(terminal (status s) \<longrightarrow> terminal (status (run_session_ops ops s))) \<and>
   (ops \<noteq> [] \<longrightarrow>
      status (run_session_ops ops s) = op_status (last ops) \<and>
      (case last ops of
         MarkCompleted res now \<Rightarrow>
           analysis_result (run_session_ops ops s) = Some res \<and> error_message (run_session_ops ops s) = None
       | MarkFailed msg now \<Rightarrow>
           analysis_result (run_session_ops ops s) = None \<and> error_message (run_session_ops ops s) = Some msg
       | MarkCached res now \<Rightarrow>
           analysis_result (run_session_ops ops s) = Some res \<and> error_message (run_session_ops ops s) = None))"
proof (cases ops rule: rev_cases)
  case Nil
  then show ?thesis by simp
next
  case (snoc xs x)
  have r: "run_session_ops ops s = apply_session_op x (run_session_ops xs s)"
    using snoc by (simp add: run_session_ops_append)
  have st: "status (run_session_ops ops s) = op_status x"
    using r by (simp add: apply_session_op_status)
  have fields: "(case x of
         MarkCompleted res now \<Rightarrow>
           analysis_result (run_session_ops ops s) = Some res \<and> error_message (run_session_ops ops s) = None
       | MarkFailed msg now \<Rightarrow>
           analysis_result (run_session_ops ops s) = None \<and> error_message (run_session_ops ops s) = Some msg
       | MarkCached res now \<Rightarrow>
           analysis_result (run_session_ops ops s) = Some res \<and> error_message (run_session_ops ops s) = None)"
    unfolding r by (cases x) (simp_all add: mark_completed_def mark_failed_def mark_cached_def)
  from st fields snoc terminal_op_status [of x] show ?thesis by simp
qed


theorem session_ops_end_terminal_witness:
  "terminal (status (mark_completed ex_result 1 ex_session)) \<and>
   [MarkFailed ''boom'' 2, MarkCached ex_result 3] \<noteq> [] \<and>
   status (run_session_ops [MarkFailed ''boom'' 2, MarkCached ex_result 3]
             (mark_completed ex_result 1 ex_session)) = CACHED"
proof -
  have t: "terminal (status (mark_completed ex_result 1 ex_session))"
    by (simp add: mark_completed_def terminal_def)
  from session_ops_end_terminal
         [of "mark_completed ex_result 1 ex_session" "[MarkFailed ''boom'' 2, MarkCached ex_result 3]"] t
  show ?thesis by simp
qed


text \<open>
  C5, as stated, fails: a completed session that is then marked failed changes its
  status, loses its result and gains an error message.
\<close>

theorem session_terminal_not_final_counterexample:
  "terminal (status (mark_completed ex_result 1 ex_session)) \<and>
   status (mark_failed ''boom'' 2 (mark_completed ex_result 1 ex_session))
     \<noteq> status (mark_completed ex_result 1 ex_session) \<and>
   analysis_result (mark_failed ''boom'' 2 (mark_completed ex_result 1 ex_session))
     \<noteq> analysis_result (mark_completed ex_result 1 ex_session) \<and>
   error_message (mark_failed ''boom'' 2 (mark_completed ex_result 1 ex_session))
     \<noteq> error_message (mark_completed ex_result 1 ex_session)"
  by (simp add: mark_completed_def mark_failed_def terminal_def)

subsection \<open>Similarity of two strings\<close>

text \<open>
  C6. For all strings \<open>a\<close> and \<open>b\<close> the similarity score is between 0 and 1 and does not
  depend on the order of its arguments. Two empty strings, or any two strings without a
  word, score 1; when exactly one of the two has no word the score is 0; otherwise it is
  the Jaccard quotient of the two sets of lower-cased words.
\<close>

theorem similarity_score_properties:
  "0 \<le> similarity_score a b \<and> similarity_score a b \<le> 1 \<and>
   similarity_score a b = similarity_score b a \<and>
   similarity_score [] [] = 1 \<and>
   (split_ws (lower a) = [] \<and> split_ws (lower b) = [] \<longrightarrow> similarity_score a b = 1) \<and>
   ((split_ws (lower a) = []) \<noteq> (split_ws (lower b) = []) \<longrightarrow> similarity_score a b = 0) \<and>
   (split_ws (lower a) \<noteq> [] \<and> split_ws (lower b) \<noteq> [] \<longrightarrow>
      similarity_score a b =
        of_nat (card (set (split_ws (lower a)) \<inter> set (split_ws (lower b)))) /
        of_nat (card (set (split_ws (lower a)) \<union> set (split_ws (lower b)))))"
proof -
  let ?A = "set (split_ws (lower a))" and ?B = "set (split_ws (lower b))"
  have le: "card (?A \<inter> ?B) \<le> card (?A \<union> ?B)"
    by (rule card_mono) auto
  have range: "0 \<le> similarity_score a b \<and> similarity_score a b \<le> 1"
  proof (cases "?A = {} \<or> ?B = {}")
    case True
    then show ?thesis by (auto simp: similarity_score_def Let_def)
  next
    case False
    then have pos: "0 < card (?A \<union> ?B)" by (simp add: card_gt_0_iff)
    have "(of_nat (card (?A \<inter> ?B)) :: rat) \<le> of_nat (card (?A \<union> ?B))"
      using le by simp
    then have "(of_nat (card (?A \<inter> ?B)) :: rat) / of_nat (card (?A \<union> ?B)) \<le> 1"
      using pos by (simp add: divide_le_eq_1)
    with False show ?thesis by (simp add: similarity_score_def Let_def)
  qed
  have sym: "similarity_score a b = similarity_score b a"
    by (auto simp: similarity_score_def Let_def Int_commute Un_commute)
  have e: "similarity_score [] [] = 1"
    by (simp add: similarity_score_def lower_def split_ws_def)
  have rest: "(split_ws (lower a) = [] \<and> split_ws (lower b) = [] \<longrightarrow> similarity_score a b = 1) \<and>
   ((split_ws (lower a) = []) \<noteq> (split_ws (lower b) = []) \<longrightarrow> similarity_score a b = 0) \<and>
   (split_ws (lower a) \<noteq> [] \<and> split_ws (lower b) \<noteq> [] \<longrightarrow>
      similarity_score a b = of_nat (card (?A \<inter> ?B)) / of_nat (card (?A \<union> ?B)))"
    by (auto simp: similarity_score_def Let_def)
  from range sym e rest show ?thesis by blast
qed

theorem similarity_score_properties_witness:
  "(split_ws (lower ''x'') = []) \<noteq> (split_ws (lower '''') = []) \<and> similarity_score ''x'' '''' = 0 \<and>
   similarity_score ''Hello World'' ''hello  there world'' = 2 / 3"
proof -
  have h1: "split_ws (lower ''x'') \<noteq> []" by code_simp
  have h2: "split_ws (lower '''') = []" by code_simp
  have h3: "split_ws (lower ''Hello World'') \<noteq> []" by code_simp
  have h4: "split_ws (lower ''hello  there world'') \<noteq> []" by code_simp
  have v: "(of_nat (card (set (split_ws (lower ''Hello World'')) \<inter> set (split_ws (lower ''hello  there world'')))) :: rat) /
        of_nat (card (set (split_ws (lower ''Hello World'')) \<union> set (split_ws (lower ''hello  there world'')))) = 2 / 3"
    by code_simp
  from similarity_score_properties [of "''x''" "''''"] similarity_score_properties [of "''Hello World''" "''hello  there world''"]
    h1 h2 h3 h4 v
  show ?thesis by simp
qed

subsection \<open>The response cache\<close>

lemma map_of_dict_set: "map_of (dict_set k v d) k = Some v"
  by (induction d) auto

lemma map_of_dict_del: "map_of (dict_del k d) k = None"
  by (induction d) (auto simp: dict_del_def)

lemma map_of_dict_del_other: "k' \<noteq> k \<Longrightarrow> map_of (dict_del k d) k' = map_of d k'"
  by (induction d) (auto simp: dict_del_def)

text \<open>
  C7. A \<^verbatim>\<open>set\<close> followed by a \<^verbatim>\<open>get\<close> of the same key, before the time to live has
  elapsed, returns the stored value. A \<^verbatim>\<open>get\<close> made after the time to live has elapsed
  since the entry was stored returns a miss and removes the entry. A \<^verbatim>\<open>set\<close> on a cache
  that is at capacity first removes an entry whose timestamp no other entry undercuts,
  then stores the new one. With a capacity of at least one entry, \<^verbatim>\<open>set\<close> always
  succeeds.
\<close>

theorem cache_put_get_evict:
  "(cache_set key v now c = Inr c' \<and> now' - now \<le> of_int (ttl_seconds c)
      \<longrightarrow> cache_get key now' c' = (Some v, c')) \<and>
   (map_of (cache c) key = Some (v, ts) \<and> of_int (ttl_seconds c) < now - ts
      \<longrightarrow> cache_get key now c = (None, c\<lparr>cache := dict_del key (cache c)\<rparr>) \<and>
          map_of (dict_del key (cache c)) key = None) \<and>
   (max_size c \<le> int (length (cache c)) \<and> cache c \<noteq> []
      \<longrightarrow> (\<exists>oldest_key oldest_v oldest_ts.
             (oldest_key, (oldest_v, oldest_ts)) \<in> set (cache c) \<and>
             (\<forall>(k, (x, t)) \<in> set (cache c). oldest_ts \<le> t) \<and>
             cache_set key v now c =
               Inr (c\<lparr>cache := dict_set key (v, now) (dict_del oldest_key (cache c))\<rparr>))) \<and>
   (0 < max_size c \<longrightarrow> (\<exists>c'. cache_set key v now c = Inr c'))"
proof -
  have p1: "cache_set key v now c = Inr c' \<and> now' - now \<le> of_int (ttl_seconds c)
      \<longrightarrow> cache_get key now' c' = (Some v, c')"
  proof
    assume h: "cache_set key v now c = Inr c' \<and> now' - now \<le> of_int (ttl_seconds c)"
    then obtain d where c': "c' = c\<lparr>cache := dict_set key (v, now) d\<rparr>"
      by (auto simp: cache_set_def split: if_splits sum.splits prod.splits)
    then have m: "map_of (cache c') key = Some (v, now)" and t: "ttl_seconds c' = ttl_seconds c"
      by (simp_all add: map_of_dict_set)
    from h have "\<not> of_int (ttl_seconds c) < now' - now" by simp
    with m t show "cache_get key now' c' = (Some v, c')" by (simp add: cache_get_def)
  qed
  have p2: "map_of (cache c) key = Some (v, ts) \<and> of_int (ttl_seconds c) < now - ts
      \<longrightarrow> cache_get key now c = (None, c\<lparr>cache := dict_del key (cache c)\<rparr>) \<and>
          map_of (dict_del key (cache c)) key = None"
    by (simp add: cache_get_def map_of_dict_del)
  have p3: "max_size c \<le> int (length (cache c)) \<and> cache c \<noteq> []
      \<longrightarrow> (\<exists>oldest_key oldest_v oldest_ts.
             (oldest_key, (oldest_v, oldest_ts)) \<in> set (cache c) \<and>
             (\<forall>(k, (x, t)) \<in> set (cache c). oldest_ts \<le> t) \<and>
             cache_set key v now c =
               Inr (c\<lparr>cache := dict_set key (v, now) (dict_del oldest_key (cache c))\<rparr>))"
  proof
    assume h: "max_size c \<le> int (length (cache c)) \<and> cache c \<noteq> []"
    let ?f = "\<lambda>(k, (v', timestamp)). timestamp :: rat"
    from h have ne: "cache c \<noteq> []" by simp
    obtain m where m: "py_min ?f (cache c) = Inr m" "m \<in> set (cache c)" "\<forall>x \<in> set (cache c). ?f m \<le> ?f x"
      using py_min_Inr[OF ne, of ?f] by blast
    obtain ok ov ots where mm: "m = (ok, (ov, ots))" by (cases m) auto
    have s: "cache_set key v now c = Inr (c\<lparr>cache := dict_set key (v, now) (dict_del ok (cache c))\<rparr>)"
      using h m(1) mm by (simp add: cache_set_def)
    have le: "\<forall>(k, (x, t)) \<in> set (cache c). ots \<le> t"
      using m(3) mm by auto
    from m(2) mm s le show "\<exists>oldest_key oldest_v oldest_ts.
             (oldest_key, (oldest_v, oldest_ts)) \<in> set (cache c) \<and>
             (\<forall>(k, (x, t)) \<in> set (cache c). oldest_ts \<le> t) \<and>
             cache_set key v now c =
               Inr (c\<lparr>cache := dict_set key (v, now) (dict_del oldest_key (cache c))\<rparr>)"
      by blast
  qed
  have p4: "0 < max_size c \<longrightarrow> (\<exists>c'. cache_set key v now c = Inr c')"
  proof
    assume pos: "0 < max_size c"
    show "\<exists>c'. cache_set key v now c = Inr c'"
    proof (cases "max_size c \<le> int (length (cache c))")
      case True
      with pos have "cache c \<noteq> []" by auto
      with True p3 show ?thesis by blast
    next
      case False
      then show ?thesis by (simp add: cache_set_def)
    qed
  qed
  from p1 p2 p3 p4 show ?thesis by blast
qed

theorem cache_put_get_evict_witness:
  "cache_set ''song:7'' ''S'' 30 ex_cache = Inr ex_cache_after \<and>
   cache_get ''song:7'' 30 ex_cache_after = (Some ''S'', ex_cache_after) \<and>
   cache_get ''search:a:10'' 3611 ex_cache =
     (None, ex_cache\<lparr>cache := dict_del ''search:a:10'' (cache ex_cache)\<rparr>) \<and>
   max_size ex_cache \<le> int (length (cache ex_cache)) \<and> cache ex_cache \<noteq> [] \<and>
   (\<exists>oldest_key oldest_v oldest_ts.
      (oldest_key, (oldest_v, oldest_ts)) \<in> set (cache ex_cache) \<and>
      (\<forall>(k, (x, t)) \<in> set (cache ex_cache). oldest_ts \<le> t) \<and>
      cache_set ''song:7'' ''S'' 30 ex_cache =
        Inr (ex_cache\<lparr>cache := dict_set ''song:7'' (''S'', 30) (dict_del oldest_key (cache ex_cache))\<rparr>))"
proof -
  have put: "cache_set ''song:7'' ''S'' 30 ex_cache = Inr ex_cache_after"
    by code_simp
  have fresh: "(30 :: rat) - 30 \<le> of_int (ttl_seconds ex_cache)"
    by (simp add: ex_cache_def)
  have stored: "map_of (cache ex_cache) ''search:a:10'' = Some (''A'', 10)"
    by (simp add: ex_cache_def)
  have expired: "of_int (ttl_seconds ex_cache) < (3611 :: rat) - 10"
    by (simp add: ex_cache_def)
  have full: "max_size ex_cache \<le> int (length (cache ex_cache))" "cache ex_cache \<noteq> []"
    by (simp_all add: ex_cache_def)
  have g: "cache_get ''song:7'' 30 ex_cache_after = (Some ''S'', ex_cache_after)"
    using cache_put_get_evict [of "''song:7''" "''S''" 30 ex_cache ex_cache_after 30] put fresh
    by blast
  have x: "cache_get ''search:a:10'' 3611 ex_cache =
     (None, ex_cache\<lparr>cache := dict_del ''search:a:10'' (cache ex_cache)\<rparr>)"
    using cache_put_get_evict [of "''search:a:10''" "''A''" 3611 ex_cache _ _ 10] stored expired
    by blast
  have e: "\<exists>oldest_key oldest_v oldest_ts.
      (oldest_key, (oldest_v, oldest_ts)) \<in> set (cache ex_cache) \<and>
      (\<forall>(k, (x, t)) \<in> set (cache ex_cache). oldest_ts \<le> t) \<and>
      cache_set ''song:7'' ''S'' 30 ex_cache =
        Inr (ex_cache\<lparr>cache := dict_set ''song:7'' (''S'', 30) (dict_del oldest_key (cache ex_cache))\<rparr>)"
    using cache_put_get_evict [of "''song:7''" "''S''" 30 ex_cache] full
    by blast
  from put g x full e show ?thesis by blast
qed

subsection \<open>The rate limiter\<close>

lemma three_requests_fields:
  "requests (three_requests t1 t2 t3) = [t1, t2, t3]"
  "max_requests (three_requests t1 t2 t3) = 3"
  "time_window (three_requests t1 t2 t3) = 60"
  by (simp_all add: three_requests_def record_request_def RateLimiter_init_def)

text \<open>
  C8. A limiter of 3 requests per 60 seconds has recorded three requests, at
  \<open>t1 \<le> t2 \<le> t3\<close>, within 10 seconds. Asked at \<open>now1\<close>, no earlier than \<open>t3\<close>, with
  the second clock read \<open>now2\<close> still less than 60 seconds after \<open>t1\<close>,
  \<^verbatim>\<open>can_make_request\<close> is false and \<^verbatim>\<open>time_until_next_request\<close> is more than 0 and at
  most 60 seconds. Once 60 seconds have passed since \<open>t1\<close>, \<^verbatim>\<open>can_make_request\<close> is true
  again. For every limiter, \<^verbatim>\<open>time_until_next_request\<close> is 0 whenever
  \<^verbatim>\<open>can_make_request\<close> is true.
\<close>

theorem rate_limiter_window:
  "(t1 \<le> t2 \<and> t2 \<le> t3 \<and> t3 - t1 \<le> 10 \<and> t3 \<le> now1 \<and> now1 \<le> now2 \<and> now2 - t1 < 60
      \<longrightarrow> fst (can_make_request now1 (three_requests t1 t2 t3)) = False \<and>
          (\<exists>w. fst (time_until_next_request now1 now2 (three_requests t1 t2 t3)) = Inr w \<and>
               0 < w \<and> w \<le> 60)) \<and>
   (t1 \<le> t2 \<and> t2 \<le> t3 \<and> t1 + 60 \<le> now
      \<longrightarrow> fst (can_make_request now (three_requests t1 t2 t3)) = True) \<and>
   (fst (can_make_request now1 rl) \<longrightarrow> fst (time_until_next_request now1 now2 rl) = Inr 0)"
proof -
  let ?rl = "three_requests t1 t2 t3"
  have p1: "t1 \<le> t2 \<and> t2 \<le> t3 \<and> t3 - t1 \<le> 10 \<and> t3 \<le> now1 \<and> now1 \<le> now2 \<and> now2 - t1 < 60
      \<longrightarrow> fst (can_make_request now1 ?rl) = False \<and>
          (\<exists>w. fst (time_until_next_request now1 now2 ?rl) = Inr w \<and> 0 < w \<and> w \<le> 60)"
  proof
    assume h: "t1 \<le> t2 \<and> t2 \<le> t3 \<and> t3 - t1 \<le> 10 \<and> t3 \<le> now1 \<and> now1 \<le> now2 \<and> now2 - t1 < 60"
    then have k: "now1 - t1 < 60" "now1 - t2 < 60" "now1 - t3 < 60" by auto
    have c: "can_make_request now1 ?rl = (False, ?rl)"
      using k by (simp add: can_make_request_def three_requests_fields Let_def)
    have m: "py_min (\<lambda>t. t) (requests ?rl) = Inr t1"
      using h by (simp add: three_requests_fields)
    have t: "fst (time_until_next_request now1 now2 ?rl) = Inr (t1 + 60 - now2)"
      using c m by (simp add: time_until_next_request_def three_requests_fields)
    from h have "0 < t1 + 60 - now2 \<and> t1 + 60 - now2 \<le> 60" by auto
    with c t show "fst (can_make_request now1 ?rl) = False \<and>
          (\<exists>w. fst (time_until_next_request now1 now2 ?rl) = Inr w \<and> 0 < w \<and> w \<le> 60)"
      by simp
  qed
  have p2: "t1 \<le> t2 \<and> t2 \<le> t3 \<and> t1 + 60 \<le> now \<longrightarrow> fst (can_make_request now ?rl) = True"
  proof
    assume h: "t1 \<le> t2 \<and> t2 \<le> t3 \<and> t1 + 60 \<le> now"
    then have "\<not> now - t1 < 60" by auto
    then have "length (filter (\<lambda>req_time. now - req_time < 60) [t1, t2, t3]) \<le> 2"
      by simp
    then show "fst (can_make_request now ?rl) = True"
      by (simp add: can_make_request_def three_requests_fields Let_def)
  qed
  have p3: "fst (can_make_request now1 rl) \<longrightarrow> fst (time_until_next_request now1 now2 rl) = Inr 0"
    by (cases "can_make_request now1 rl") (auto simp: time_until_next_request_def)
  from p1 p2 p3 show ?thesis by blast
qed

theorem rate_limiter_window_witness:
  "fst (can_make_request 107 (three_requests 100 103 107)) = False \<and>
   (\<exists>w. fst (time_until_next_request 107 108 (three_requests 100 103 107)) = Inr w \<and> 0 < w \<and> w \<le> 60) \<and>
   fst (can_make_request 160 (three_requests 100 103 107)) = True \<and>
   fst (time_until_next_request 160 161 (three_requests 100 103 107)) = Inr 0"
proof -
  have h1: "(100::rat) \<le> 103 \<and> (103::rat) \<le> 107 \<and> (107::rat) - 100 \<le> 10 \<and> (107::rat) \<le> 107 \<and>
            (107::rat) \<le> 108 \<and> (108::rat) - 100 < 60"
    by simp
  have h2: "(100::rat) \<le> 103 \<and> (103::rat) \<le> 107 \<and> (100::rat) + 60 \<le> 160"
    by simp
  have a: "fst (can_make_request 107 (three_requests 100 103 107)) = False \<and>
     (\<exists>w. fst (time_until_next_request 107 108 (three_requests 100 103 107)) = Inr w \<and> 0 < w \<and> w \<le> 60)"
    using rate_limiter_window [of 100 103 107 107 108] h1 by blast
  have b: "fst (can_make_request 160 (three_requests 100 103 107)) = True"
    using rate_limiter_window [of 100 103 107 _ _ 160] h2 by blast
  have c: "fst (time_until_next_request 160 161 (three_requests 100 103 107)) = Inr 0"
    using rate_limiter_window [of _ _ _ 160 161 _ "three_requests 100 103 107"] b by blast
  from a b c show ?thesis by blast
qed

subsection \<open>Choosing the best match\<close>

lemma first_confident_None:
  "first_confident sn an rs = None \<longleftrightarrow> (\<forall>r \<in> set rs. \<not> is_confident_match sn an r)"
  by (induction rs) auto

lemma first_confident_Some:
  "first_confident sn an rs = Some r \<longleftrightarrow>
     (\<exists>pre post. rs = pre @ r # post \<and> (\<forall>p \<in> set pre. \<not> is_confident_match sn an p) \<and>
        is_confident_match sn an r)"
proof (induction rs)
  case Nil
  then show ?case by simp
next
  case (Cons x xs)
  show ?case
  proof (cases "is_confident_match sn an x")
    case True
    have "(\<exists>pre post. x # xs = pre @ r # post \<and> (\<forall>p \<in> set pre. \<not> is_confident_match sn an p) \<and>
        is_confident_match sn an r) \<longleftrightarrow> x = r"
    proof
      assume "\<exists>pre post. x # xs = pre @ r # post \<and> (\<forall>p \<in> set pre. \<not> is_confident_match sn an p) \<and>
        is_confident_match sn an r"
      then obtain pre post where e: "x # xs = pre @ r # post" and n: "\<forall>p \<in> set pre. \<not> is_confident_match sn an p"
        by blast
      show "x = r"
      proof (cases pre)
        case Nil with e show ?thesis by simp
      next
        case (Cons p ps)
        with e have "p = x" by simp
        with n Cons True show ?thesis by simp
      qed
    next
      assume "x = r"
      with True have "x # xs = [] @ r # xs \<and> (\<forall>p \<in> set []. \<not> is_confident_match sn an p) \<and> is_confident_match sn an r"
        by simp
      then show "\<exists>pre post. x # xs = pre @ r # post \<and> (\<forall>p \<in> set pre. \<not> is_confident_match sn an p) \<and>
        is_confident_match sn an r" by blast
    qed
    with True show ?thesis by auto
  next
    case False
    have "(\<exists>pre post. x # xs = pre @ r # post \<and> (\<forall>p \<in> set pre. \<not> is_confident_match sn an p) \<and>
        is_confident_match sn an r) \<longleftrightarrow>
        (\<exists>pre post. xs = pre @ r # post \<and> (\<forall>p \<in> set pre. \<not> is_confident_match sn an p) \<and>
        is_confident_match sn an r)" (is "?L \<longleftrightarrow> ?R")
    proof
      assume ?L
      then obtain pre post where e: "x # xs = pre @ r # post" and n: "\<forall>p \<in> set pre. \<not> is_confident_match sn an p"
        and c: "is_confident_match sn an r" by blast
      show ?R
      proof (cases pre)
        case Nil with e c False show ?thesis by simp
      next
        case (Cons p ps)
        with e n c have "xs = ps @ r # post \<and> (\<forall>p \<in> set ps. \<not> is_confident_match sn an p) \<and> is_confident_match sn an r"
          by simp
        then show ?thesis by blast
      qed
    next
      assume ?R
      then obtain pre post where e: "xs = pre @ r # post" and n: "\<forall>p \<in> set pre. \<not> is_confident_match sn an p"
        and c: "is_confident_match sn an r" by blast
      with False have "x # xs = (x # pre) @ r # post \<and> (\<forall>p \<in> set (x # pre). \<not> is_confident_match sn an p) \<and> is_confident_match sn an r"
        by simp
      then show ?L by blast
    qed
    with False Cons.IH show ?thesis by simp
  qed
qed

text \<open>
  C9. In \<^verbatim>\<open>find_and_fetch_song\<close>, once both names are validated and the search has
  returned: with no result the resolution fails with \<^verbatim>\<open>LyricsNotFoundError\<close>; the first
  result, in search order, whose title similarity and artist similarity both exceed 0.7
  is the best match; with no such result the first result of the search is used; and a
  best match other than the first result has passed both thresholds.
\<close>

theorem best_match_selection:
  "select_best_match sn an [] = Inl LyricsNotFoundError \<and>
   (rs = pre @ r # post \<and> (\<forall>p \<in> set pre. \<not> is_confident_match sn an p) \<and> is_confident_match sn an r
      \<longrightarrow> select_best_match sn an rs = Inr r) \<and>
   (rs \<noteq> [] \<and> (\<forall>p \<in> set rs. \<not> is_confident_match sn an p)
      \<longrightarrow> select_best_match sn an rs = Inr (hd rs)) \<and>
   (select_best_match sn an rs = Inr r \<and> r \<noteq> hd rs \<longrightarrow> is_confident_match sn an r) \<and>
   (is_confident_match sn an r \<longleftrightarrow>
      7 / 10 < similarity_score (lower sn) (lower (SearchResult.title r)) \<and>
      7 / 10 < similarity_score (lower an) (lower (SearchResult.artist_name r))) \<and>
   (validate_song_name s0 = Inr sn \<and> validate_artist_name a0 = Inr an \<and>
    search_songs env (sn @ '' '' @ an) 10 = Inr rs
      \<longrightarrow> find_and_fetch_song env s0 a0 now =
            (case select_best_match sn an rs of
               Inl e \<Rightarrow> Inl e
             | Inr best_match \<Rightarrow> fetch_song env (sn @ '' '' @ an) best_match now))"
proof -
  have a: "select_best_match sn an [] = Inl LyricsNotFoundError" by simp
  have b: "rs = pre @ r # post \<and> (\<forall>p \<in> set pre. \<not> is_confident_match sn an p) \<and> is_confident_match sn an r
      \<longrightarrow> select_best_match sn an rs = Inr r"
  proof
    assume h: "rs = pre @ r # post \<and> (\<forall>p \<in> set pre. \<not> is_confident_match sn an p) \<and> is_confident_match sn an r"
    then have "first_confident sn an rs = Some r"
      unfolding first_confident_Some by blast
    moreover from h have "rs \<noteq> []" by simp
    then obtain x xs where "rs = x # xs" by (cases rs) simp_all
    ultimately show "select_best_match sn an rs = Inr r" by simp
  qed
  have c: "rs \<noteq> [] \<and> (\<forall>p \<in> set rs. \<not> is_confident_match sn an p)
      \<longrightarrow> select_best_match sn an rs = Inr (hd rs)"
  proof
    assume h: "rs \<noteq> [] \<and> (\<forall>p \<in> set rs. \<not> is_confident_match sn an p)"
    then have n: "first_confident sn an rs = None" by (simp add: first_confident_None)
    from h have "rs \<noteq> []" by simp
    then obtain x xs where "rs = x # xs" by (cases rs) simp_all
    with n show "select_best_match sn an rs = Inr (hd rs)" by simp
  qed
  have d: "select_best_match sn an rs = Inr r \<and> r \<noteq> hd rs \<longrightarrow> is_confident_match sn an r"
  proof
    assume h: "select_best_match sn an rs = Inr r \<and> r \<noteq> hd rs"
    then have "rs \<noteq> []" by auto
    then obtain x xs where rs: "rs = x # xs" by (cases rs) simp_all
    with h have "first_confident sn an rs = Some r"
      by (auto split: option.splits)
    then show "is_confident_match sn an r" unfolding first_confident_Some by blast
  qed
  have e: "is_confident_match sn an r \<longleftrightarrow>
      7 / 10 < similarity_score (lower sn) (lower (SearchResult.title r)) \<and>
      7 / 10 < similarity_score (lower an) (lower (SearchResult.artist_name r))"
    by (simp add: is_confident_match_def Let_def)
  have f: "validate_song_name s0 = Inr sn \<and> validate_artist_name a0 = Inr an \<and>
    search_songs env (sn @ '' '' @ an) 10 = Inr rs
      \<longrightarrow> find_and_fetch_song env s0 a0 now =
            (case select_best_match sn an rs of
               Inl e \<Rightarrow> Inl e
             | Inr best_match \<Rightarrow> fetch_song env (sn @ '' '' @ an) best_match now)"
    by (auto simp: find_and_fetch_song_def Let_def split: sum.splits)
  from a b c d e f show ?thesis by blast
qed

theorem best_match_selection_witness:
  "select_best_match ''Hello'' ''Adele'' ex_results = Inr (ex_results ! 1) \<and>
   select_best_match ''Goodbye'' ''Adele'' ex_results = Inr (hd ex_results) \<and>
   find_and_fetch_song ex_env '' Hello '' ''Adele'' 0 =
     fetch_song ex_env ''Hello Adele'' (ex_results ! 1) 0"
proof -
  have split: "ex_results = [ex_results ! 0] @ (ex_results ! 1) # [ex_results ! 2]"
    by (simp add: ex_results_def)
  have n0: "\<forall>p \<in> set [ex_results ! 0]. \<not> is_confident_match ''Hello'' ''Adele'' p"
    by code_simp
  have c1: "is_confident_match ''Hello'' ''Adele'' (ex_results ! 1)"
    by code_simp
  have ne: "ex_results \<noteq> []" by (simp add: ex_results_def)
  have none: "\<forall>p \<in> set ex_results. \<not> is_confident_match ''Goodbye'' ''Adele'' p"
    by code_simp
  have v1: "validate_song_name '' Hello '' = Inr ''Hello''" by code_simp
  have v2: "validate_artist_name ''Adele'' = Inr ''Adele''" by code_simp
  have q: "search_songs ex_env (''Hello'' @ '' '' @ ''Adele'') 10 = Inr ex_results"
    by (simp add: ex_env_def)
  have first: "select_best_match ''Hello'' ''Adele'' ex_results = Inr (ex_results ! 1)"
    using best_match_selection
            [of "''Hello''" "''Adele''" ex_results "[ex_results ! 0]" "ex_results ! 1" "[ex_results ! 2]"]
          split n0 c1
    by blast
  have second: "select_best_match ''Goodbye'' ''Adele'' ex_results = Inr (hd ex_results)"
    using best_match_selection [of "''Goodbye''" "''Adele''" ex_results] ne none
    by blast
  have "find_and_fetch_song ex_env '' Hello '' ''Adele'' 0 =
          (case select_best_match ''Hello'' ''Adele'' ex_results of
             Inl e \<Rightarrow> Inl e
           | Inr best_match \<Rightarrow> fetch_song ex_env (''Hello'' @ '' '' @ ''Adele'') best_match 0)"
    using best_match_selection
            [of "''Hello''" "''Adele''" ex_results _ _ _ "'' Hello ''" "''Adele''" ex_env 0]
          v1 v2 q
    by blast
  with first have third: "find_and_fetch_song ex_env '' Hello '' ''Adele'' 0 =
     fetch_song ex_env ''Hello Adele'' (ex_results ! 1) 0"
    by simp
  from first second third show ?thesis by simp
qed

subsection \<open>Success rate of a history\<close>



end
